theory Spec2Isabelle
  imports Main
begin

section \<open>DumbWatch: the digital watch of dumbwatch.py\<close>

text \<open>
  The class \<open>DigitalClock\<close> of \<^verbatim>\<open>src/dumbwatch.py\<close> is one mutable object: thirteen
  attributes set in \<open>__init__\<close>, four display widgets yielded by \<open>compose\<close>, a periodic
  callback \<open>update_time\<close> and one handler per button. The object is a record, every
  method is a function from the record to the record, and every operation of the
  standard library that can raise returns a sum whose \<open>Inl\<close> is the exception.
  Each call of \<open>datetime.now()\<close> is a parameter of the method that makes it, in the
  order of the calls, so that two calls within one method may read two different times.
\<close>

subsection \<open>Modes and exceptions\<close>

datatype ClockMode =
    TIME | SET_HOUR | SET_MINUTE | SET_SECOND | ALARM
  | SET_ALARM_HOUR | SET_ALARM_MINUTE | STOPWATCH | TIMER

fun mode_value :: "ClockMode \<Rightarrow> string" where
  "mode_value TIME = ''TIME''"
| "mode_value SET_HOUR = ''SET HOUR''"
| "mode_value SET_MINUTE = ''SET MINUTE''"
| "mode_value SET_SECOND = ''SET SECOND''"
| "mode_value ALARM = ''ALARM''"
| "mode_value SET_ALARM_HOUR = ''SET ALARM HOUR''"
| "mode_value SET_ALARM_MINUTE = ''SET ALARM MINUTE''"
| "mode_value STOPWATCH = ''STOPWATCH''"
| "mode_value TIMER = ''TIMER''"

datatype error = ValueError | OverflowError

definition bind_result :: "error + 'a \<Rightarrow> ('a \<Rightarrow> error + 'b) \<Rightarrow> error + 'b" where
  "bind_result r f = (case r of Inl e \<Rightarrow> Inl e | Inr x \<Rightarrow> f x)"

subsection \<open>Python's datetime and timedelta\<close>

text \<open>
  A \<open>timedelta\<close> is its exact length in microseconds, an integer; Python keeps it
  normalised as days, seconds and microseconds and refuses a value whose day count
  leaves \<open>\<plusminus>999999999\<close>.

  A \<open>datetime\<close> keeps its time of day field by field, as \<open>replace\<close> edits single
  fields. Its date is kept as the proleptic Gregorian ordinal of (year, month, day),
  the number \<open>toordinal()\<close> returns and the one Python's own datetime arithmetic
  computes with; valid dates are the ordinals 1 (0001-01-01) to 3652059 (9999-12-31).
\<close>

type_synonym timedelta = int

record datetime =
  ordinal :: int
  hour :: int
  minute :: int
  second :: int
  microsecond :: int

definition us_per_second :: int where "us_per_second = 1000000"
definition us_per_minute :: int where "us_per_minute = 60000000"
definition us_per_hour :: int where "us_per_hour = 3600000000"
definition us_per_day :: int where "us_per_day = 86400000000"
definition max_ordinal :: int where "max_ordinal = 3652059"

definition valid_datetime :: "datetime \<Rightarrow> bool" where
  "valid_datetime d \<longleftrightarrow>
     1 \<le> ordinal d \<and> ordinal d \<le> max_ordinal \<and>
     0 \<le> hour d \<and> hour d < 24 \<and>
     0 \<le> minute d \<and> minute d < 60 \<and>
     0 \<le> second d \<and> second d < 60 \<and>
     0 \<le> microsecond d \<and> microsecond d < 1000000"

definition valid_timedelta :: "timedelta \<Rightarrow> bool" where
  "valid_timedelta td \<longleftrightarrow>
     - 999999999 * us_per_day \<le> td \<and> td < 1000000000 * us_per_day"

definition to_us :: "datetime \<Rightarrow> int" where
  "to_us d = ordinal d * us_per_day + hour d * us_per_hour + minute d * us_per_minute
             + second d * us_per_second + microsecond d"

definition from_us :: "int \<Rightarrow> datetime" where
  "from_us us =
     \<lparr> ordinal = us div us_per_day,
       hour = us mod us_per_day div us_per_hour,
       minute = us mod us_per_hour div us_per_minute,
       second = us mod us_per_minute div us_per_second,
       microsecond = us mod us_per_second \<rparr>"

text \<open>\<open>a - b\<close> for two datetimes: always a timedelta within range.\<close>

definition dt_diff :: "datetime \<Rightarrow> datetime \<Rightarrow> timedelta" where
  "dt_diff a b = to_us a - to_us b"

text \<open>\<open>d - td\<close> for a datetime and a timedelta: OverflowError when the date leaves
  0001-01-01 .. 9999-12-31.\<close>

definition dt_sub_td :: "datetime \<Rightarrow> timedelta \<Rightarrow> error + datetime" where
  "dt_sub_td d td =
     (let us = to_us d - td
      in if us_per_day \<le> us \<and> us < (max_ordinal + 1) * us_per_day
         then Inr (from_us us) else Inl OverflowError)"

text \<open>\<open>a - b\<close> for two timedeltas and the constructor \<open>timedelta(minutes=n)\<close>:
  OverflowError when the result leaves the range of timedelta.\<close>

definition td_sub :: "timedelta \<Rightarrow> timedelta \<Rightarrow> error + timedelta" where
  "td_sub a b = (if valid_timedelta (a - b) then Inr (a - b) else Inl OverflowError)"

definition timedelta_minutes :: "int \<Rightarrow> error + timedelta" where
  "timedelta_minutes n =
     (if valid_timedelta (n * us_per_minute) then Inr (n * us_per_minute)
      else Inl OverflowError)"

text \<open>\<open>d.replace(hour=h)\<close> and its siblings build a new datetime and raise
  ValueError when the field is out of range.\<close>

definition replace_hour :: "datetime \<Rightarrow> int \<Rightarrow> error + datetime" where
  "replace_hour d h = (if 0 \<le> h \<and> h < 24 then Inr (d\<lparr>hour := h\<rparr>) else Inl ValueError)"

definition replace_minute :: "datetime \<Rightarrow> int \<Rightarrow> error + datetime" where
  "replace_minute d m = (if 0 \<le> m \<and> m < 60 then Inr (d\<lparr>minute := m\<rparr>) else Inl ValueError)"

definition replace_second :: "datetime \<Rightarrow> int \<Rightarrow> error + datetime" where
  "replace_second d x = (if 0 \<le> x \<and> x < 60 then Inr (d\<lparr>second := x\<rparr>) else Inl ValueError)"

text \<open>
  \<open>td.total_seconds()\<close> is a double, the quotient of the microseconds by \<open>10^6\<close>
  rounded to nearest. The program uses it in three shapes, modelled on the exact
  quotient: its sign (\<open>total_seconds() <= 0\<close>, which rounding never changes),
  \<open>int(td.total_seconds())\<close> (truncation towards zero) and
  \<open>int(td.total_seconds() // 60)\<close> (floor of the minutes). A double carries 53 bits, so
  below \<open>2^33\<close> seconds (some 272 years) the rounding error is under half a microsecond
  and cannot carry the quotient over a whole number: there the exact quotient is
  Python's value. Every theorem below that depends on these two functions is stated
  for durations within that bound.
\<close>

definition int_total_seconds :: "timedelta \<Rightarrow> int" where
  "int_total_seconds td =
     (if 0 \<le> td then td div us_per_second else - ((- td) div us_per_second))"

definition whole_minutes :: "timedelta \<Rightarrow> int" where
  "whole_minutes td = td div us_per_minute"

subsection \<open>String formatting\<close>

definition digit_char :: "int \<Rightarrow> char" where
  "digit_char d = ''0123456789'' ! nat d"

fun digits_of :: "nat \<Rightarrow> string" where
  "digits_of n =
     (if n < 10 then [digit_char (int n)]
      else digits_of (n div 10) @ [digit_char (int (n mod 10))])"

declare digits_of.simps [simp del]

text \<open>The format specification \<open>:02d\<close>: decimal digits, a minus sign for a negative
  number, zeros after the sign up to a total width of two.\<close>

definition format_02d :: "int \<Rightarrow> string" where
  "format_02d n =
     (if n < 0 then CHR ''-'' # digits_of (nat (- n))
      else if n < 10 then CHR ''0'' # digits_of (nat n)
      else digits_of (nat n))"

fun join :: "string \<Rightarrow> string list \<Rightarrow> string" where
  "join sep [] = []"
| "join sep [x] = x"
| "join sep (x # y # ys) = x @ sep @ join sep (y # ys)"

subsection \<open>The application object\<close>

record DigitalClock =
  current_time :: datetime
  display_time :: datetime
  alarm_time :: datetime
  alarm_enabled :: bool
  mode :: ClockMode
  stopwatch_start :: "datetime option"
  stopwatch_elapsed :: timedelta
  stopwatch_running :: bool
  timer_duration :: timedelta
  timer_start :: "datetime option"
  timer_running :: bool
  blink_state :: bool
  setting_blink :: bool
  time_display :: string
  date_display :: string
  mode_display :: string
  status_info :: string

text \<open>\<open>__init__\<close> reads the clock twice; \<open>compose\<close> creates the four widgets empty.
  \<open>replace(hour=7, minute=0, second=0, microsecond=0)\<close> has constant arguments within
  range and cannot raise.\<close>

definition init :: "datetime \<Rightarrow> datetime \<Rightarrow> DigitalClock" where
  "init now1 now2 =
     \<lparr> current_time = now1,
       display_time = now1,
       alarm_time = now2\<lparr>hour := 7, minute := 0, second := 0, microsecond := 0\<rparr>,
       alarm_enabled = False,
       mode = TIME,
       stopwatch_start = None,
       stopwatch_elapsed = 0,
       stopwatch_running = False,
       timer_duration = 5 * us_per_minute,
       timer_start = None,
       timer_running = False,
       blink_state = True,
       setting_blink = False,
       time_display = [],
       date_display = [],
       mode_display = [],
       status_info = [] \<rparr>"

subsection \<open>The display\<close>

text \<open>
  \<open>update_display\<close> writes the four widgets. \<open>strftime\<close> stands for
  \<open>d.strftime("%A, %B %d, %Y")\<close>, whose weekday and month names come from the locale
  of the platform; \<open>now\<close> is the clock reading of the TIMER branch. The four
  \<open>query_one\<close> lookups find the widgets that \<open>compose\<close> created.
\<close>

definition stopwatch_str :: "timedelta \<Rightarrow> string" where
  "stopwatch_str elapsed =
     (let total_seconds = int_total_seconds elapsed;
          minutes = total_seconds div 60;
          seconds = total_seconds mod 60;
          hundredths = (elapsed mod us_per_second) div 10000
      in format_02d minutes @ '':'' @ format_02d seconds @ ''.'' @ format_02d hundredths)"

definition minutes_seconds_str :: "timedelta \<Rightarrow> string" where
  "minutes_seconds_str td =
     (let total_seconds = int_total_seconds td;
          minutes = total_seconds div 60;
          seconds = total_seconds mod 60
      in format_02d minutes @ '':'' @ format_02d seconds)"

definition timer_str :: "datetime \<Rightarrow> DigitalClock \<Rightarrow> error + string" where
  "timer_str now s =
     (case (timer_running s, timer_start s) of
        (True, Some start) \<Rightarrow>
          bind_result (td_sub (timer_duration s) (dt_diff now start)) (\<lambda>remaining.
            if remaining > 0 then Inr (minutes_seconds_str remaining)
            else Inr ''00:00'')
      | _ \<Rightarrow> Inr (minutes_seconds_str (timer_duration s)))"

definition alarm_str :: "DigitalClock \<Rightarrow> string" where
  "alarm_str s =
     (let hour_str = format_02d (hour (alarm_time s));
          minute_str = format_02d (minute (alarm_time s))
      in if mode s = SET_ALARM_HOUR \<and> \<not> blink_state s then ''  '' @ '':'' @ minute_str
         else if mode s = SET_ALARM_MINUTE \<and> \<not> blink_state s then hour_str @ '':'' @ ''  ''
         else hour_str @ '':'' @ minute_str)"

definition clock_str :: "DigitalClock \<Rightarrow> string" where
  "clock_str s =
     (let hour_str = format_02d (hour (display_time s));
          minute_str = format_02d (minute (display_time s));
          second_str = format_02d (second (display_time s))
      in if mode s = SET_HOUR \<and> \<not> blink_state s
           then ''  '' @ '':'' @ minute_str @ '':'' @ second_str
         else if mode s = SET_MINUTE \<and> \<not> blink_state s
           then hour_str @ '':'' @ ''  '' @ '':'' @ second_str
         else if mode s = SET_SECOND \<and> \<not> blink_state s
           then hour_str @ '':'' @ minute_str @ '':'' @ ''  ''
         else hour_str @ '':'' @ minute_str @ '':'' @ second_str)"

definition time_str :: "datetime \<Rightarrow> DigitalClock \<Rightarrow> error + string" where
  "time_str now s =
     (if mode s = STOPWATCH then Inr (stopwatch_str (stopwatch_elapsed s))
      else if mode s = TIMER then timer_str now s
      else if mode s \<in> set [ALARM, SET_ALARM_HOUR, SET_ALARM_MINUTE] then Inr (alarm_str s)
      else Inr (clock_str s))"

definition date_str :: "(datetime \<Rightarrow> string) \<Rightarrow> DigitalClock \<Rightarrow> string" where
  "date_str strftime s =
     (if mode s \<notin> set [STOPWATCH, TIMER] then strftime (current_time s) else '''')"

definition status_parts :: "DigitalClock \<Rightarrow> string list" where
  "status_parts s =
     (if alarm_enabled s then [''ALM''] else [])
     @ (if stopwatch_running s then [''SW''] else [])
     @ (if timer_running s then [''TMR''] else [])"

definition update_display ::
  "(datetime \<Rightarrow> string) \<Rightarrow> datetime \<Rightarrow> DigitalClock \<Rightarrow> error + DigitalClock" where
  "update_display strftime now s =
     bind_result (time_str now s) (\<lambda>t.
       Inr (s\<lparr> time_display := t,
              date_display := date_str strftime s,
              mode_display := ''Mode: '' @ mode_value (mode s),
              status_info := join '' | '' (status_parts s) \<rparr>))"

definition on_mount ::
  "(datetime \<Rightarrow> string) \<Rightarrow> datetime \<Rightarrow> DigitalClock \<Rightarrow> error + DigitalClock" where
  "on_mount strftime now s = update_display strftime now s"

subsection \<open>The periodic callback\<close>

text \<open>\<open>update_time\<close> reads the clock once for the time of day, once for the
  stopwatch and once for the countdown; the fourth reading is the one of
  \<open>update_display\<close>. A datetime is never falsy, so \<open>and self.stopwatch_start\<close>
  tests for \<open>None\<close>.\<close>

definition tick_time :: "datetime \<Rightarrow> DigitalClock \<Rightarrow> DigitalClock" where
  "tick_time now s =
     (if mode s = TIME then s\<lparr>current_time := now, display_time := now\<rparr> else s)"

definition tick_stopwatch :: "datetime \<Rightarrow> DigitalClock \<Rightarrow> DigitalClock" where
  "tick_stopwatch now s =
     (case (stopwatch_running s, stopwatch_start s) of
        (True, Some start) \<Rightarrow> s\<lparr>stopwatch_elapsed := dt_diff now start\<rparr>
      | _ \<Rightarrow> s)"

definition tick_timer :: "datetime \<Rightarrow> DigitalClock \<Rightarrow> error + DigitalClock" where
  "tick_timer now s =
     (case (timer_running s, timer_start s) of
        (True, Some start) \<Rightarrow>
          bind_result (td_sub (timer_duration s) (dt_diff now start)) (\<lambda>remaining.
            if remaining \<le> 0 then Inr (s\<lparr>timer_running := False\<rparr>) else Inr s)
      | _ \<Rightarrow> Inr s)"

definition tick_blink :: "DigitalClock \<Rightarrow> DigitalClock" where
  "tick_blink s =
     (if mode s \<in> set [SET_HOUR, SET_MINUTE, SET_SECOND, SET_ALARM_HOUR, SET_ALARM_MINUTE]
      then s\<lparr>blink_state := \<not> blink_state s\<rparr> else s)"

definition update_time ::
  "(datetime \<Rightarrow> string) \<Rightarrow> datetime \<Rightarrow> datetime \<Rightarrow> datetime \<Rightarrow> datetime
     \<Rightarrow> DigitalClock \<Rightarrow> error + DigitalClock" where
  "update_time strftime now1 now2 now3 now4 s =
     bind_result (tick_timer now3 (tick_stopwatch now2 (tick_time now1 s))) (\<lambda>s'.
       update_display strftime now4 (tick_blink s'))"

subsection \<open>The buttons\<close>

fun index_of :: "'a list \<Rightarrow> 'a \<Rightarrow> error + nat" where
  "index_of [] x = Inl ValueError"
| "index_of (y # ys) x =
     (if y = x then Inr 0 else bind_result (index_of ys x) (\<lambda>i. Inr (Suc i)))"

definition modes :: "ClockMode list" where
  "modes = [TIME, ALARM, STOPWATCH, TIMER]"

text \<open>\<open>try: ... except ValueError:\<close> catches the one exception \<open>list.index\<close> raises.\<close>

definition cycle_mode :: "DigitalClock \<Rightarrow> error + DigitalClock" where
  "cycle_mode s =
     (case index_of modes (mode s) of
        Inr current_index \<Rightarrow> Inr (s\<lparr>mode := modes ! ((current_index + 1) mod length modes)\<rparr>)
      | Inl e \<Rightarrow> if e = ValueError then Inr (s\<lparr>mode := TIME\<rparr>) else Inl e)"

definition handle_set :: "DigitalClock \<Rightarrow> DigitalClock" where
  "handle_set s =
     (if mode s = TIME then s\<lparr>mode := SET_HOUR, display_time := current_time s\<rparr>
      else if mode s = SET_HOUR then s\<lparr>mode := SET_MINUTE\<rparr>
      else if mode s = SET_MINUTE then s\<lparr>mode := SET_SECOND\<rparr>
      else if mode s = SET_SECOND then s\<lparr>current_time := display_time s, mode := TIME\<rparr>
      else if mode s = ALARM then s\<lparr>mode := SET_ALARM_HOUR\<rparr>
      else if mode s = SET_ALARM_HOUR then s\<lparr>mode := SET_ALARM_MINUTE\<rparr>
      else if mode s = SET_ALARM_MINUTE then s\<lparr>alarm_enabled := True, mode := ALARM\<rparr>
      else s)"

definition handle_prev :: "DigitalClock \<Rightarrow> error + DigitalClock" where
  "handle_prev s =
     (if mode s = SET_HOUR then
        bind_result (replace_hour (display_time s) ((hour (display_time s) - 1) mod 24))
          (\<lambda>d. Inr (s\<lparr>display_time := d\<rparr>))
      else if mode s = SET_MINUTE then
        bind_result (replace_minute (display_time s) ((minute (display_time s) - 1) mod 60))
          (\<lambda>d. Inr (s\<lparr>display_time := d\<rparr>))
      else if mode s = SET_SECOND then
        bind_result (replace_second (display_time s) ((second (display_time s) - 1) mod 60))
          (\<lambda>d. Inr (s\<lparr>display_time := d\<rparr>))
      else if mode s = SET_ALARM_HOUR then
        bind_result (replace_hour (alarm_time s) ((hour (alarm_time s) - 1) mod 24))
          (\<lambda>d. Inr (s\<lparr>alarm_time := d\<rparr>))
      else if mode s = SET_ALARM_MINUTE then
        bind_result (replace_minute (alarm_time s) ((minute (alarm_time s) - 1) mod 60))
          (\<lambda>d. Inr (s\<lparr>alarm_time := d\<rparr>))
      else if mode s = TIMER then
        (let current_minutes = whole_minutes (timer_duration s);
             new_minutes = max 1 (current_minutes - 1)
         in bind_result (timedelta_minutes new_minutes) (\<lambda>td. Inr (s\<lparr>timer_duration := td\<rparr>)))
      else Inr s)"

definition handle_next :: "DigitalClock \<Rightarrow> error + DigitalClock" where
  "handle_next s =
     (if mode s = SET_HOUR then
        bind_result (replace_hour (display_time s) ((hour (display_time s) + 1) mod 24))
          (\<lambda>d. Inr (s\<lparr>display_time := d\<rparr>))
      else if mode s = SET_MINUTE then
        bind_result (replace_minute (display_time s) ((minute (display_time s) + 1) mod 60))
          (\<lambda>d. Inr (s\<lparr>display_time := d\<rparr>))
      else if mode s = SET_SECOND then
        bind_result (replace_second (display_time s) ((second (display_time s) + 1) mod 60))
          (\<lambda>d. Inr (s\<lparr>display_time := d\<rparr>))
      else if mode s = SET_ALARM_HOUR then
        bind_result (replace_hour (alarm_time s) ((hour (alarm_time s) + 1) mod 24))
          (\<lambda>d. Inr (s\<lparr>alarm_time := d\<rparr>))
      else if mode s = SET_ALARM_MINUTE then
        bind_result (replace_minute (alarm_time s) ((minute (alarm_time s) + 1) mod 60))
          (\<lambda>d. Inr (s\<lparr>alarm_time := d\<rparr>))
      else if mode s = TIMER then
        (let current_minutes = whole_minutes (timer_duration s);
             new_minutes = min 99 (current_minutes + 1)
         in bind_result (timedelta_minutes new_minutes) (\<lambda>td. Inr (s\<lparr>timer_duration := td\<rparr>)))
      else Inr s)"

definition handle_start_stop :: "datetime \<Rightarrow> DigitalClock \<Rightarrow> error + DigitalClock" where
  "handle_start_stop now s =
     (if mode s = STOPWATCH then
        (if stopwatch_running s then Inr (s\<lparr>stopwatch_running := False\<rparr>)
         else case stopwatch_start s of
                None \<Rightarrow>
                  Inr (s\<lparr>stopwatch_start := Some now, stopwatch_elapsed := 0,
                         stopwatch_running := True\<rparr>)
              | Some _ \<Rightarrow>
                  bind_result (dt_sub_td now (stopwatch_elapsed s)) (\<lambda>start.
                    Inr (s\<lparr>stopwatch_start := Some start, stopwatch_running := True\<rparr>)))
      else if mode s = TIMER then
        (if timer_running s then Inr (s\<lparr>timer_running := False\<rparr>)
         else Inr (s\<lparr>timer_start := Some now, timer_running := True\<rparr>))
      else if mode s = ALARM then Inr (s\<lparr>alarm_enabled := \<not> alarm_enabled s\<rparr>)
      else Inr s)"

definition handle_light :: "DigitalClock \<Rightarrow> DigitalClock" where
  "handle_light s =
     (if mode s = STOPWATCH \<and> \<not> stopwatch_running s
        then s\<lparr>stopwatch_start := None, stopwatch_elapsed := 0\<rparr>
      else if mode s = TIMER \<and> \<not> timer_running s
        then s\<lparr>timer_duration := 5 * us_per_minute\<rparr>
      else s)"

text \<open>\<open>on_button_pressed\<close> dispatches on the id of the pressed button; \<open>now\<close> is the
  clock reading of \<open>handle_start_stop\<close>. An id that matches no branch changes nothing.\<close>

definition on_button_pressed :: "string \<Rightarrow> datetime \<Rightarrow> DigitalClock \<Rightarrow> error + DigitalClock" where
  "on_button_pressed button_id now s =
     (if button_id = ''mode-btn'' then cycle_mode s
      else if button_id = ''set-btn'' then Inr (handle_set s)
      else if button_id = ''prev-btn'' then handle_prev s
      else if button_id = ''next-btn'' then handle_next s
      else if button_id = ''start-stop-btn'' then handle_start_stop now s
      else if button_id = ''light-btn'' then Inr (handle_light s)
      else Inr s)"

subsection \<open>Runs of the application\<close>

text \<open>The framework calls \<open>on_mount\<close>, then the timer callback ten times a second and
  \<open>on_button_pressed\<close> at every press, one call at a time. An event carries the clock
  readings of its call; a run stops at the first exception.\<close>

datatype event =
    Mount datetime
  | Tick datetime datetime datetime datetime
  | Press string datetime

fun step :: "(datetime \<Rightarrow> string) \<Rightarrow> event \<Rightarrow> DigitalClock \<Rightarrow> error + DigitalClock" where
  "step strftime (Mount now) s = on_mount strftime now s"
| "step strftime (Tick now1 now2 now3 now4) s = update_time strftime now1 now2 now3 now4 s"
| "step strftime (Press button_id now) s = on_button_pressed button_id now s"

fun run :: "(datetime \<Rightarrow> string) \<Rightarrow> event list \<Rightarrow> DigitalClock \<Rightarrow> error + DigitalClock" where
  "run strftime [] s = Inr s"
| "run strftime (e # es) s = bind_result (step strftime e s) (run strftime es)"

fun readings :: "event \<Rightarrow> datetime list" where
  "readings (Mount now) = [now]"
| "readings (Tick now1 now2 now3 now4) = [now1, now2, now3, now4]"
| "readings (Press button_id now) = [now]"

subsection \<open>Vocabulary of the properties\<close>

definition setting_modes :: "ClockMode list" where
  "setting_modes = [SET_HOUR, SET_MINUTE, SET_SECOND, SET_ALARM_HOUR, SET_ALARM_MINUTE]"

text \<open>A morning in 2024 and the application as it starts then.\<close>

definition t0 :: datetime where
  "t0 = \<lparr>ordinal = 739000, hour = 9, minute = 30, second = 15, microsecond = 0\<rparr>"

definition s0 :: DigitalClock where
  "s0 = init t0 t0"

definition edited_field :: "DigitalClock \<Rightarrow> int" where
  "edited_field s =
     (if mode s = SET_HOUR then hour (display_time s)
      else if mode s = SET_MINUTE then minute (display_time s)
      else if mode s = SET_SECOND then second (display_time s)
      else if mode s = SET_ALARM_HOUR then hour (alarm_time s)
      else if mode s = SET_ALARM_MINUTE then minute (alarm_time s)
      else 0)"

definition field_range :: "ClockMode \<Rightarrow> int" where
  "field_range m = (if m = SET_HOUR \<or> m = SET_ALARM_HOUR then 24 else 60)"

definition mmss :: "int \<Rightarrow> string" where
  "mmss secs =
     [digit_char (secs div 600), digit_char (secs div 60 mod 10), CHR '':'',
      digit_char (secs mod 60 div 10), digit_char (secs mod 10)]"

definition minutes_1_99 :: "timedelta \<Rightarrow> bool" where
  "minutes_1_99 td \<longleftrightarrow>
     td mod us_per_minute = 0 \<and> us_per_minute \<le> td \<and> td \<le> 99 * us_per_minute"


text \<open>The last second of a day, a state editing the hour at 23 and the initial
  state after its first display.\<close>

definition t_late :: datetime where
  "t_late = \<lparr>ordinal = 739000, hour = 23, minute = 59, second = 59, microsecond = 999999\<rparr>"

definition s_edit_hour :: DigitalClock where
  "s_edit_hour = s0\<lparr>mode := SET_HOUR, display_time := t_late\<rparr>"

definition s0_shown :: DigitalClock where
  "s0_shown = s0\<lparr> time_display := ''09:30:15'', date_display := ''Wednesday, April 24, 2024'',
                  mode_display := ''Mode: TIME'', status_info := [] \<rparr>"

text \<open>A countdown of the default five minutes started at \<open>t0\<close>, looked at 61.5
  seconds later and again after six minutes; the same countdown stopped.\<close>

definition t1 :: datetime where
  "t1 = \<lparr>ordinal = 739000, hour = 9, minute = 31, second = 16, microsecond = 500000\<rparr>"

definition t2 :: datetime where
  "t2 = \<lparr>ordinal = 739000, hour = 9, minute = 36, second = 15, microsecond = 0\<rparr>"

definition s_timer :: DigitalClock where
  "s_timer = s0\<lparr>mode := TIMER, timer_start := Some t0, timer_running := True\<rparr>"

definition s_timer_stopped :: DigitalClock where
  "s_timer_stopped = s0\<lparr>mode := TIMER, timer_start := Some t0\<rparr>"

text \<open>A stopwatch started at \<open>t0\<close> and paused after two seconds.\<close>

definition s_paused :: DigitalClock where
  "s_paused = s0\<lparr>mode := STOPWATCH, stopwatch_start := Some t0, stopwatch_elapsed := 2000000\<rparr>"

text \<open>The clock readings of a run: each a valid datetime and none earlier than the
  one before it (\<open>t\<close> is the time, in microseconds, of the reading before the first).\<close>

fun monotone_from :: "int \<Rightarrow> datetime list \<Rightarrow> bool" where
  "monotone_from t [] = True"
| "monotone_from t (d # ds) = (valid_datetime d \<and> t \<le> to_us d \<and> monotone_from (to_us d) ds)"

fun end_time :: "int \<Rightarrow> datetime list \<Rightarrow> int" where
  "end_time t [] = t"
| "end_time t (d # ds) = end_time (to_us d) ds"

text \<open>The six attributes of the stopwatch and the countdown, and the invariants of
  the runs over them.\<close>

definition watch_fields ::
  "DigitalClock \<Rightarrow> (datetime option \<times> timedelta \<times> bool) \<times> (timedelta \<times> datetime option \<times> bool)" where
  "watch_fields s =
     ((stopwatch_start s, stopwatch_elapsed s, stopwatch_running s),
      (timer_duration s, timer_start s, timer_running s))"

definition basic_inv :: "DigitalClock \<Rightarrow> bool" where
  "basic_inv s \<longleftrightarrow>
     minutes_1_99 (timer_duration s) \<and>
     (stopwatch_running s \<longrightarrow> stopwatch_start s \<noteq> None) \<and>
     (timer_running s \<longrightarrow> timer_start s \<noteq> None)"

definition clock_inv :: "int \<Rightarrow> DigitalClock \<Rightarrow> bool" where
  "clock_inv t s \<longleftrightarrow>
     basic_inv s \<and> 0 \<le> stopwatch_elapsed s \<and>
     (\<forall>start. stopwatch_start s = Some start \<longrightarrow>
        us_per_day \<le> to_us start \<and> to_us start + stopwatch_elapsed s \<le> t) \<and>
     (\<forall>start. timer_start s = Some start \<longrightarrow> valid_datetime start)"

text \<open>Three runs: to the countdown and down to one minute; starting the stopwatch and
  the countdown; a session with ticks, a pause, a resumption and an unknown button.\<close>

definition evs_one_minute :: "event list" where
  "evs_one_minute =
     [Press ''mode-btn'' t0, Press ''mode-btn'' t0, Press ''mode-btn'' t0,
      Press ''prev-btn'' t0, Press ''prev-btn'' t0, Press ''prev-btn'' t0,
      Press ''prev-btn'' t0, Press ''prev-btn'' t0]"

definition s_one_minute :: DigitalClock where
  "s_one_minute = s0\<lparr>mode := TIMER, timer_duration := 60000000\<rparr>"

definition evs_start_both :: "event list" where
  "evs_start_both =
     [Press ''mode-btn'' t0, Press ''mode-btn'' t0, Press ''start-stop-btn'' t0,
      Press ''mode-btn'' t1, Press ''start-stop-btn'' t1]"

definition s_both_running :: DigitalClock where
  "s_both_running =
     s0\<lparr>mode := TIMER, stopwatch_start := Some t0, stopwatch_running := True,
        timer_start := Some t1, timer_running := True\<rparr>"

definition evs_session :: "event list" where
  "evs_session =
     [Mount t0, Press ''mode-btn'' t0, Press ''mode-btn'' t0, Press ''start-stop-btn'' t0,
      Tick t1 t1 t1 t1, Press ''start-stop-btn'' t1, Press ''start-stop-btn'' t2,
      Tick t2 t2 t2 t2, Press ''lap-btn'' t2, Press ''mode-btn'' t2, Press ''set-btn'' t2]"

section \<open>Basic facts\<close>

lemma bind_result_simps [simp]:
  "bind_result (Inl e) f = Inl e" "bind_result (Inr x) f = f x"
  by (simp_all add: bind_result_def)

lemmas us_defs =
  us_per_second_def us_per_minute_def us_per_hour_def us_per_day_def max_ordinal_def

lemma index_of_modes:
  "index_of modes m =
     (if m = TIME then Inr 0 else if m = ALARM then Inr 1
      else if m = STOPWATCH then Inr 2 else if m = TIMER then Inr 3 else Inl ValueError)"
  by (cases m) (simp_all add: modes_def)

lemma mod_split: "(x::int) mod (a * b) div b * b + x mod b = x mod (a * b)"
proof -
  have "x mod (a * b) mod b = x mod b" by (simp add: mod_mod_cancel)
  then show ?thesis by (metis div_mult_mod_eq)
qed

lemma recompose:
  "q1 + r1 = (us::int) \<Longrightarrow> q2 + r2 = r1 \<Longrightarrow> q3 + r3 = r2 \<Longrightarrow> q4 + r4 = r3
     \<Longrightarrow> q1 + q2 + q3 + q4 + r4 = us"
  by simp

lemma to_us_from_us: "to_us (from_us us) = us"
proof -
  have d: "us div us_per_day * us_per_day + us mod us_per_day = us" by simp
  have h: "us mod us_per_day div us_per_hour * us_per_hour + us mod us_per_hour = us mod us_per_day"
    using mod_split [of us 24 3600000000] by (simp add: us_defs)
  have m: "us mod us_per_hour div us_per_minute * us_per_minute + us mod us_per_minute
             = us mod us_per_hour"
    using mod_split [of us 60 60000000] by (simp add: us_defs)
  have s: "us mod us_per_minute div us_per_second * us_per_second + us mod us_per_second
             = us mod us_per_minute"
    using mod_split [of us 60 1000000] by (simp add: us_defs)
  show ?thesis
    unfolding to_us_def from_us_def datetime.select_convs
    by (rule recompose [OF d h m s])
qed

lemma div_bound:
  assumes "0 \<le> (x::int)" "x < a * b" "0 < b"
  shows "0 \<le> x div b \<and> x div b < a"
proof -
  have "x div b * b + x mod b = x" by simp
  moreover have "0 \<le> x mod b" using assms(3) by simp
  ultimately have "x div b * b \<le> x" by linarith
  with assms(2) have "x div b * b < a * b" by linarith
  with assms(3) have "x div b < a" by (simp add: mult_less_cancel_right)
  moreover have "0 \<le> x div b" using assms(1,3) by (simp add: pos_imp_zdiv_nonneg_iff)
  ultimately show ?thesis by simp
qed

lemma field_bounds:
  assumes "0 \<le> h" "h < (24::int)" "0 \<le> m" "m < (60::int)" "0 \<le> s" "s < (60::int)"
    "0 \<le> u" "u < (1000000::int)"
  shows "0 \<le> h * 3600000000 + m * 60000000 + s * 1000000 + u"
    and "h * 3600000000 + m * 60000000 + s * 1000000 + u < 86400000000"
  using assms by simp_all

lemma to_us_bounds:
  assumes "valid_datetime d"
  shows "us_per_day \<le> to_us d" and "to_us d < (max_ordinal + 1) * us_per_day"
proof -
  have f: "0 \<le> hour d * 3600000000 + minute d * 60000000 + second d * 1000000 + microsecond d"
    "hour d * 3600000000 + minute d * 60000000 + second d * 1000000 + microsecond d < 86400000000"
    using assms field_bounds [of "hour d" "minute d" "second d" "microsecond d"]
    by (simp_all add: valid_datetime_def)
  have o: "1 \<le> ordinal d" "ordinal d \<le> 3652059"
    using assms by (simp_all add: valid_datetime_def us_defs)
  have "1 * 86400000000 \<le> ordinal d * 86400000000" using o(1) by simp
  then show "us_per_day \<le> to_us d" using f(1) by (simp add: to_us_def us_defs)
  have "ordinal d * 86400000000 \<le> 3652059 * 86400000000" using o(2) by simp
  then show "to_us d < (max_ordinal + 1) * us_per_day" using f(2) by (simp add: to_us_def us_defs)
qed

lemma valid_from_us:
  assumes "us_per_day \<le> us" "us < (max_ordinal + 1) * us_per_day"
  shows "valid_datetime (from_us us)"
proof -
  have "0 < us div 86400000000" using assms(1) by (simp add: pos_imp_zdiv_pos_iff us_defs)
  then have o1: "1 \<le> us div 86400000000" by simp
  have "us div 86400000000 < 3652060"
    using div_bound [of us 3652060 86400000000] assms by (simp add: us_defs)
  then have o2: "us div 86400000000 \<le> 3652059" by simp
  have h: "0 \<le> us mod 86400000000 div 3600000000 \<and> us mod 86400000000 div 3600000000 < 24"
    using div_bound [of "us mod 86400000000" 24 3600000000] by simp
  have m: "0 \<le> us mod 3600000000 div 60000000 \<and> us mod 3600000000 div 60000000 < 60"
    using div_bound [of "us mod 3600000000" 60 60000000] by simp
  have s: "0 \<le> us mod 60000000 div 1000000 \<and> us mod 60000000 div 1000000 < 60"
    using div_bound [of "us mod 60000000" 60 1000000] by simp
  show ?thesis
    unfolding valid_datetime_def from_us_def us_defs using o1 o2 h m s by simp
qed

lemma mod_pm1:
  assumes "0 \<le> (x::int)" "x < n"
  shows "((x - 1) mod n + 1) mod n = x" "((x + 1) mod n - 1) mod n = x"
proof -
  have "((x - 1) mod n + 1) mod n = (x - 1 + 1) mod n" by (simp add: mod_simps)
  then show "((x - 1) mod n + 1) mod n = x" using assms by simp
  have "((x + 1) mod n - 1) mod n = (x + 1 - 1) mod n" by (simp add: mod_simps)
  then show "((x + 1) mod n - 1) mod n = x" using assms by simp
qed


lemma setting_modes_cases:
  "m \<in> set setting_modes \<longleftrightarrow>
     m = SET_HOUR \<or> m = SET_MINUTE \<or> m = SET_SECOND \<or> m = SET_ALARM_HOUR \<or> m = SET_ALARM_MINUTE"
  by (simp add: setting_modes_def)

lemma update_display_Inr:
  assumes "update_display strftime now s = Inr s'"
  shows "\<exists>t. time_str now s = Inr t \<and>
           s' = s\<lparr> time_display := t, date_display := date_str strftime s,
                   mode_display := ''Mode: '' @ mode_value (mode s),
                   status_info := join '' | '' (status_parts s) \<rparr>"
  using assms unfolding update_display_def by (cases "time_str now s") simp_all

lemma digits_of_lt_100:
  assumes "n < 100"
  shows "digits_of n =
     (if n < 10 then [digit_char (int n)]
      else [digit_char (int (n div 10)), digit_char (int (n mod 10))])"
proof -
  have "n div 10 < 10" using assms by (simp add: less_mult_imp_div_less)
  then have "digits_of (n div 10) = [digit_char (int (n div 10))]"
    by (subst digits_of.simps) simp
  then show ?thesis by (subst digits_of.simps) simp
qed

lemma format_02d_two_digits:
  assumes "0 \<le> n" "n < 100"
  shows "format_02d n = [digit_char (n div 10), digit_char (n mod 10)]"
proof (cases "n < 10")
  case True
  with assms show ?thesis
    by (simp add: format_02d_def digits_of_lt_100 digit_char_def)
next
  case False
  with assms have "nat n < 100" "\<not> nat n < 10" by simp_all
  then have "digits_of (nat n) = [digit_char (int (nat n div 10)), digit_char (int (nat n mod 10))]"
    by (simp add: digits_of_lt_100)
  moreover have "int (nat n div 10) = n div 10" "int (nat n mod 10) = n mod 10"
    using assms by (simp_all add: zdiv_int zmod_int)
  ultimately show ?thesis using False assms by (simp add: format_02d_def)
qed

lemma td_sub_dt_diff:
  assumes "minutes_1_99 d" "valid_datetime a" "valid_datetime b"
  shows "td_sub d (dt_diff a b) = Inr (d - dt_diff a b)"
proof -
  have "86400000000 \<le> to_us a" "to_us a < 3652060 * 86400000000"
    "86400000000 \<le> to_us b" "to_us b < 3652060 * 86400000000"
    using to_us_bounds [OF assms(2)] to_us_bounds [OF assms(3)] by (simp_all add: us_defs)
  moreover have "60000000 \<le> d" "d \<le> 99 * 60000000"
    using assms(1) by (simp_all add: minutes_1_99_def us_defs)
  ultimately have "valid_timedelta (d - dt_diff a b)"
    by (simp add: valid_timedelta_def dt_diff_def us_defs)
  then show ?thesis by (simp add: td_sub_def)
qed

lemma minutes_seconds_str_secs:
  "minutes_seconds_str td =
     format_02d (int_total_seconds td div 60) @ '':'' @ format_02d (int_total_seconds td mod 60)"
  by (simp only: minutes_seconds_str_def Let_def)

lemma mmss_two_fields:
  assumes "0 \<le> secs" "secs < 6000"
  shows "format_02d (secs div 60) @ '':'' @ format_02d (secs mod 60) = mmss secs"
proof -
  have mins: "0 \<le> secs div 60 \<and> secs div 60 < 100"
    using div_bound [of secs 100 60] assms by simp
  have m: "format_02d (secs div 60) = [digit_char (secs div 60 div 10), digit_char (secs div 60 mod 10)]"
    using mins by (simp only: format_02d_two_digits)
  have "0 \<le> secs mod 60" "secs mod 60 < 100"
    using pos_mod_bound [of 60 secs] by simp_all
  then have s: "format_02d (secs mod 60) = [digit_char (secs mod 60 div 10), digit_char (secs mod 60 mod 10)]"
    by (rule format_02d_two_digits)
  have d: "secs div 60 div 10 = secs div 600"
    using zdiv_zmult2_eq [of 10 secs 60] by simp
  have r: "secs mod 60 mod 10 = secs mod 10"
    by (simp add: mod_mod_cancel)
  show ?thesis
    unfolding m s d r mmss_def by simp
qed

lemma minutes_seconds_str_mmss:
  assumes "0 \<le> td" "td < 100 * us_per_minute"
  shows "minutes_seconds_str td = mmss (td div us_per_second)"
proof -
  have "td < 6000 * us_per_second" using assms(2) by (simp add: us_defs)
  then have secs: "0 \<le> td div us_per_second \<and> td div us_per_second < 6000"
    using div_bound [of td 6000 us_per_second] assms(1) by (simp add: us_per_second_def)
  have "int_total_seconds td = td div us_per_second"
    using assms(1) by (simp add: int_total_seconds_def)
  then show ?thesis
    using secs by (simp only: minutes_seconds_str_secs mmss_two_fields)
qed

lemma timer_str_running:
  assumes "timer_running s" "timer_start s = Some start"
  shows "timer_str now s =
           bind_result (td_sub (timer_duration s) (dt_diff now start)) (\<lambda>remaining.
             if remaining > 0 then Inr (minutes_seconds_str remaining) else Inr ''00:00'')"
  using assms by (simp add: timer_str_def)

lemma timer_str_stopped:
  assumes "\<not> timer_running s"
  shows "timer_str now s = Inr (minutes_seconds_str (timer_duration s))"
  using assms by (simp add: timer_str_def)

lemma update_display_TIMER:
  assumes "mode s = TIMER" "timer_str now s = Inr t"
  shows "\<exists>s'. update_display strftime now s = Inr s' \<and> time_display s' = t \<and> date_display s' = ''''"
  using assms by (simp add: update_display_def time_str_def date_str_def)

lemma tick_time_fields:
  "mode (tick_time n s) = mode s"
  "stopwatch_start (tick_time n s) = stopwatch_start s"
  "stopwatch_elapsed (tick_time n s) = stopwatch_elapsed s"
  "stopwatch_running (tick_time n s) = stopwatch_running s"
  "timer_duration (tick_time n s) = timer_duration s"
  "timer_start (tick_time n s) = timer_start s"
  "timer_running (tick_time n s) = timer_running s"
  by (simp_all add: tick_time_def)

lemma tick_stopwatch_fields:
  "mode (tick_stopwatch n s) = mode s"
  "stopwatch_start (tick_stopwatch n s) = stopwatch_start s"
  "stopwatch_running (tick_stopwatch n s) = stopwatch_running s"
  "timer_duration (tick_stopwatch n s) = timer_duration s"
  "timer_start (tick_stopwatch n s) = timer_start s"
  "timer_running (tick_stopwatch n s) = timer_running s"
  by (simp_all add: tick_stopwatch_def split: option.splits bool.splits)

lemma tick_stopwatch_elapsed:
  "stopwatch_elapsed (tick_stopwatch n s) =
     (case stopwatch_start s of
        Some start \<Rightarrow> if stopwatch_running s then dt_diff n start else stopwatch_elapsed s
      | None \<Rightarrow> stopwatch_elapsed s)"
  by (simp add: tick_stopwatch_def split: option.splits bool.splits)

lemma tick_blink_fields:
  "mode (tick_blink s) = mode s"
  "stopwatch_start (tick_blink s) = stopwatch_start s"
  "stopwatch_elapsed (tick_blink s) = stopwatch_elapsed s"
  "stopwatch_running (tick_blink s) = stopwatch_running s"
  "timer_duration (tick_blink s) = timer_duration s"
  "timer_start (tick_blink s) = timer_start s"
  "timer_running (tick_blink s) = timer_running s"
  by (simp_all add: tick_blink_def)

lemma tick_timer_Inr:
  assumes "tick_timer now s = Inr s'"
  shows "s' = s\<lparr>timer_running := (timer_running s \<and>
                  (\<forall>start. timer_start s = Some start \<longrightarrow>
                     0 < timer_duration s - dt_diff now start))\<rparr>"
proof (cases "timer_running s")
  case False
  then show ?thesis using assms by (simp add: tick_timer_def)
next
  case True
  show ?thesis
  proof (cases "timer_start s")
    case None
    then show ?thesis using assms True by (simp add: tick_timer_def)
  next
    case (Some start)
    then show ?thesis using assms True
      by (auto simp: tick_timer_def td_sub_def split: if_splits)
  qed
qed

lemma tick_timer_total:
  assumes "minutes_1_99 (timer_duration s)" "valid_datetime now"
    and "\<And>start. timer_start s = Some start \<Longrightarrow> valid_datetime start"
  shows "\<exists>s'. tick_timer now s = Inr s'"
proof (cases "timer_running s")
  case False
  then show ?thesis by (simp add: tick_timer_def)
next
  case True
  show ?thesis
  proof (cases "timer_start s")
    case None
    then show ?thesis using True by (simp add: tick_timer_def)
  next
    case (Some start)
    then have "td_sub (timer_duration s) (dt_diff now start)
                 = Inr (timer_duration s - dt_diff now start)"
      using assms by (simp add: td_sub_dt_diff)
    then show ?thesis using True Some by (simp add: tick_timer_def)
  qed
qed

lemma timer_str_total:
  assumes "minutes_1_99 (timer_duration s)" "valid_datetime now"
    and "\<And>start. timer_start s = Some start \<Longrightarrow> valid_datetime start"
  shows "\<exists>t. timer_str now s = Inr t"
proof (cases "timer_running s")
  case False
  then show ?thesis by (simp add: timer_str_def)
next
  case True
  show ?thesis
  proof (cases "timer_start s")
    case None
    then show ?thesis using True by (simp add: timer_str_def)
  next
    case (Some start)
    then have "td_sub (timer_duration s) (dt_diff now start)
                 = Inr (timer_duration s - dt_diff now start)"
      using assms by (simp add: td_sub_dt_diff)
    then show ?thesis using True Some by (simp add: timer_str_def)
  qed
qed

lemma update_display_total:
  assumes "minutes_1_99 (timer_duration s)" "valid_datetime now"
    and "\<And>start. timer_start s = Some start \<Longrightarrow> valid_datetime start"
  shows "\<exists>s'. update_display strftime now s = Inr s'"
proof -
  obtain t where "timer_str now s = Inr t" using timer_str_total [OF assms] by blast
  then have "\<exists>t. time_str now s = Inr t" by (simp add: time_str_def)
  then show ?thesis by (auto simp: update_display_def)
qed

lemma update_time_Inr:
  assumes "update_time strftime now1 now2 now3 now4 s = Inr s'"
  shows "\<exists>s3. tick_timer now3 (tick_stopwatch now2 (tick_time now1 s)) = Inr s3 \<and>
              update_display strftime now4 (tick_blink s3) = Inr s'"
  using assms unfolding update_time_def
  by (cases "tick_timer now3 (tick_stopwatch now2 (tick_time now1 s))") simp_all

lemma update_time_total:
  assumes "minutes_1_99 (timer_duration s)" "valid_datetime now3" "valid_datetime now4"
    and "\<And>start. timer_start s = Some start \<Longrightarrow> valid_datetime start"
  shows "\<exists>s'. update_time strftime now1 now2 now3 now4 s = Inr s'"
proof -
  let ?s2 = "tick_stopwatch now2 (tick_time now1 s)"
  have "\<exists>s3. tick_timer now3 ?s2 = Inr s3"
    using assms by (intro tick_timer_total) (simp_all add: tick_stopwatch_fields tick_time_fields)
  then obtain s3 where s3: "tick_timer now3 ?s2 = Inr s3" by blast
  from tick_timer_Inr [OF s3]
  have f: "timer_duration s3 = timer_duration s" "timer_start s3 = timer_start s"
    by (simp_all add: tick_stopwatch_fields tick_time_fields)
  have "\<exists>s'. update_display strftime now4 (tick_blink s3) = Inr s'"
    using assms f by (intro update_display_total) (simp_all add: tick_blink_fields)
  then show ?thesis using s3 by (simp add: update_time_def)
qed

lemma minutes_1_99_D:
  assumes "minutes_1_99 d"
  shows "\<exists>k. 1 \<le> k \<and> k \<le> 99 \<and> d = k * us_per_minute"
proof -
  let ?k = "d div us_per_minute"
  have "us_per_minute dvd d" using assms by (simp add: minutes_1_99_def mod_eq_0_iff_dvd)
  then have d: "d = ?k * us_per_minute" by simp
  have "1 * us_per_minute \<le> ?k * us_per_minute" "?k * us_per_minute \<le> 99 * us_per_minute"
    using assms d by (simp_all add: minutes_1_99_def)
  then have "1 \<le> ?k" "?k \<le> 99" by (simp_all add: us_per_minute_def)
  with d show ?thesis by blast
qed

lemma minutes_1_99_I: "1 \<le> k \<Longrightarrow> k \<le> 99 \<Longrightarrow> minutes_1_99 (k * us_per_minute)"
  by (simp add: minutes_1_99_def us_per_minute_def)

lemma timedelta_minutes_small:
  "1 \<le> n \<Longrightarrow> n \<le> 99 \<Longrightarrow> timedelta_minutes n = Inr (n * us_per_minute)"
  by (simp add: timedelta_minutes_def valid_timedelta_def us_defs)

lemma whole_minutes_mult: "whole_minutes (k * us_per_minute) = k"
  by (simp add: whole_minutes_def us_per_minute_def)

lemma handle_prev_TIMER:
  assumes "mode s = TIMER" "minutes_1_99 (timer_duration s)"
  shows "handle_prev s =
           Inr (s\<lparr>timer_duration := max us_per_minute (timer_duration s - us_per_minute)\<rparr>)"
proof -
  from minutes_1_99_D [OF assms(2)] obtain k
    where k: "1 \<le> k" "k \<le> 99" "timer_duration s = k * us_per_minute" by blast
  let ?n = "max 1 (k - 1)"
  have "1 \<le> ?n" "?n \<le> 99" using k by simp_all
  then have "timedelta_minutes ?n = Inr (?n * us_per_minute)" by (rule timedelta_minutes_small)
  moreover have "?n * us_per_minute = max us_per_minute (k * us_per_minute - us_per_minute)"
    using k by (cases "k = 1") (simp_all add: us_per_minute_def max_def)
  ultimately show ?thesis
    using assms(1) k(3) by (simp add: handle_prev_def whole_minutes_mult Let_def)
qed

lemma handle_next_TIMER:
  assumes "mode s = TIMER" "minutes_1_99 (timer_duration s)"
  shows "handle_next s =
           Inr (s\<lparr>timer_duration := min (99 * us_per_minute) (timer_duration s + us_per_minute)\<rparr>)"
proof -
  from minutes_1_99_D [OF assms(2)] obtain k
    where k: "1 \<le> k" "k \<le> 99" "timer_duration s = k * us_per_minute" by blast
  let ?n = "min 99 (k + 1)"
  have "1 \<le> ?n" "?n \<le> 99" using k by simp_all
  then have "timedelta_minutes ?n = Inr (?n * us_per_minute)" by (rule timedelta_minutes_small)
  moreover have "?n * us_per_minute = min (99 * us_per_minute) (k * us_per_minute + us_per_minute)"
    using k by (cases "k = 99") (simp_all add: us_per_minute_def min_def)
  ultimately show ?thesis
    using assms(1) k(3) by (simp add: handle_next_def whole_minutes_mult Let_def)
qed

lemma minutes_1_99_prev:
  assumes "minutes_1_99 d"
  shows "minutes_1_99 (max us_per_minute (d - us_per_minute))"
proof -
  from minutes_1_99_D [OF assms] obtain k
    where k: "1 \<le> k" "k \<le> 99" "d = k * us_per_minute" by blast
  have "max us_per_minute (d - us_per_minute) = max 1 (k - 1) * us_per_minute"
    using k by (cases "k = 1") (simp_all add: us_per_minute_def max_def)
  moreover have "minutes_1_99 (max 1 (k - 1) * us_per_minute)"
    using k by (intro minutes_1_99_I) simp_all
  ultimately show ?thesis by simp
qed

lemma minutes_1_99_next:
  assumes "minutes_1_99 d"
  shows "minutes_1_99 (min (99 * us_per_minute) (d + us_per_minute))"
proof -
  from minutes_1_99_D [OF assms] obtain k
    where k: "1 \<le> k" "k \<le> 99" "d = k * us_per_minute" by blast
  have "min (99 * us_per_minute) (d + us_per_minute) = min 99 (k + 1) * us_per_minute"
    using k by (cases "k = 99") (simp_all add: us_per_minute_def min_def)
  moreover have "minutes_1_99 (min 99 (k + 1) * us_per_minute)"
    using k by (intro minutes_1_99_I) simp_all
  ultimately show ?thesis by simp
qed

lemma minutes_1_99_default: "minutes_1_99 (5 * us_per_minute)"
  using minutes_1_99_I [of 5] by simp

lemma basic_inv_cong: "watch_fields s' = watch_fields s \<Longrightarrow> basic_inv s' = basic_inv s"
  by (simp add: watch_fields_def basic_inv_def)

lemma clock_inv_cong: "watch_fields s' = watch_fields s \<Longrightarrow> clock_inv t s' = clock_inv t s"
  by (simp add: watch_fields_def clock_inv_def basic_inv_def)

lemma clock_inv_mono: "clock_inv t s \<Longrightarrow> t \<le> t' \<Longrightarrow> clock_inv t' s"
  by (fastforce simp: clock_inv_def)

lemma update_display_watch:
  "update_display strftime now s = Inr s' \<Longrightarrow> watch_fields s' = watch_fields s"
  by (drule update_display_Inr) (auto simp: watch_fields_def)

lemma cycle_mode_watch: "\<exists>s'. cycle_mode s = Inr s' \<and> watch_fields s' = watch_fields s"
  by (simp add: cycle_mode_def index_of_modes watch_fields_def)

lemma handle_set_watch: "watch_fields (handle_set s) = watch_fields s"
  by (simp add: handle_set_def watch_fields_def)

lemma handle_prev_other:
  "mode s \<noteq> TIMER \<Longrightarrow> \<exists>s'. handle_prev s = Inr s' \<and> watch_fields s' = watch_fields s"
  by (simp add: handle_prev_def replace_hour_def replace_minute_def replace_second_def
        watch_fields_def)

lemma handle_next_other:
  "mode s \<noteq> TIMER \<Longrightarrow> \<exists>s'. handle_next s = Inr s' \<and> watch_fields s' = watch_fields s"
  by (simp add: handle_next_def replace_hour_def replace_minute_def replace_second_def
        watch_fields_def)

lemma basic_inv_duration:
  "basic_inv s \<Longrightarrow> minutes_1_99 d \<Longrightarrow> basic_inv (s\<lparr>timer_duration := d\<rparr>)"
  by (simp add: basic_inv_def)

lemma clock_inv_duration:
  "clock_inv t s \<Longrightarrow> minutes_1_99 d \<Longrightarrow> clock_inv t (s\<lparr>timer_duration := d\<rparr>)"
  by (simp add: clock_inv_def basic_inv_def)

lemma handle_prev_basic:
  assumes "basic_inv s"
  shows "\<exists>s'. handle_prev s = Inr s' \<and> basic_inv s' \<and> (\<forall>t. clock_inv t s \<longrightarrow> clock_inv t s')"
proof (cases "mode s = TIMER")
  case True
  have m: "minutes_1_99 (timer_duration s)" using assms by (simp add: basic_inv_def)
  show ?thesis
    using handle_prev_TIMER [OF True m] assms minutes_1_99_prev [OF m]
    by (simp add: basic_inv_duration clock_inv_duration)
next
  case False
  from handle_prev_other [OF this] show ?thesis
    using assms basic_inv_cong clock_inv_cong by blast
qed

lemma handle_next_basic:
  assumes "basic_inv s"
  shows "\<exists>s'. handle_next s = Inr s' \<and> basic_inv s' \<and> (\<forall>t. clock_inv t s \<longrightarrow> clock_inv t s')"
proof (cases "mode s = TIMER")
  case True
  have m: "minutes_1_99 (timer_duration s)" using assms by (simp add: basic_inv_def)
  show ?thesis
    using handle_next_TIMER [OF True m] assms minutes_1_99_next [OF m]
    by (simp add: basic_inv_duration clock_inv_duration)
next
  case False
  from handle_next_other [OF this] show ?thesis
    using assms basic_inv_cong clock_inv_cong by blast
qed

lemma handle_light_basic:
  "basic_inv s \<Longrightarrow> basic_inv (handle_light s)"
  by (simp add: handle_light_def basic_inv_def minutes_1_99_default)

lemma handle_light_clock:
  "clock_inv t s \<Longrightarrow> clock_inv t (handle_light s)"
  by (simp add: handle_light_def clock_inv_def basic_inv_def minutes_1_99_default)

lemma handle_start_stop_basic:
  assumes "basic_inv s" "handle_start_stop now s = Inr s'"
  shows "basic_inv s'"
proof (cases "dt_sub_td now (stopwatch_elapsed s)")
  case (Inl e)
  then show ?thesis using assms
    by (auto simp: handle_start_stop_def basic_inv_def split: if_splits option.splits)
next
  case (Inr start)
  then show ?thesis using assms
    by (auto simp: handle_start_stop_def basic_inv_def split: if_splits option.splits)
qed

lemma dt_sub_td_resume:
  assumes "valid_datetime now" "0 \<le> e" "us_per_day \<le> to_us start" "to_us start + e \<le> to_us now"
  shows "\<exists>start'. dt_sub_td now e = Inr start' \<and> to_us start' = to_us now - e"
proof -
  have "to_us now - e < (max_ordinal + 1) * us_per_day"
    using to_us_bounds(2) [OF assms(1)] assms(2) by simp
  moreover have "us_per_day \<le> to_us now - e" using assms(3,4) by simp
  ultimately have "dt_sub_td now e = Inr (from_us (to_us now - e))"
    by (simp add: dt_sub_td_def)
  then show ?thesis by (simp add: to_us_from_us)
qed

lemma handle_start_stop_clock:
  assumes "clock_inv t s" "valid_datetime now" "t \<le> to_us now"
  shows "\<exists>s'. handle_start_stop now s = Inr s' \<and> clock_inv (to_us now) s'"
proof -
  have inv: "clock_inv (to_us now) s" using assms(1,3) by (rule clock_inv_mono)
  have now: "us_per_day \<le> to_us now" using to_us_bounds(1) [OF assms(2)] .
  show ?thesis
  proof (cases "mode s = STOPWATCH \<and> \<not> stopwatch_running s")
    case False
    then show ?thesis using inv assms(2)
      by (auto simp: handle_start_stop_def clock_inv_def basic_inv_def)
  next
    case True
    show ?thesis
    proof (cases "stopwatch_start s")
      case None
      then show ?thesis using True inv now
        by (simp add: handle_start_stop_def clock_inv_def basic_inv_def)
    next
      case (Some start)
      then have "0 \<le> stopwatch_elapsed s" "us_per_day \<le> to_us start"
        "to_us start + stopwatch_elapsed s \<le> to_us now"
        using inv by (simp_all add: clock_inv_def)
      from dt_sub_td_resume [OF assms(2) this] obtain start'
        where "dt_sub_td now (stopwatch_elapsed s) = Inr start'"
          and "to_us start' = to_us now - stopwatch_elapsed s" by blast
      then show ?thesis using True Some inv \<open>us_per_day \<le> to_us start\<close>
          \<open>to_us start + stopwatch_elapsed s \<le> to_us now\<close>
        by (simp add: handle_start_stop_def clock_inv_def basic_inv_def)
    qed
  qed
qed

lemma tick_time_watch: "watch_fields (tick_time now s) = watch_fields s"
  by (simp add: watch_fields_def tick_time_fields)

lemma tick_blink_watch: "watch_fields (tick_blink s) = watch_fields s"
  by (simp add: watch_fields_def tick_blink_fields)

lemma tick_stopwatch_basic: "basic_inv (tick_stopwatch now s) = basic_inv s"
  by (simp add: basic_inv_def tick_stopwatch_fields)

lemma tick_stopwatch_clock:
  assumes "clock_inv t s" "t \<le> to_us now"
  shows "clock_inv (to_us now) (tick_stopwatch now s)"
proof (cases "stopwatch_start s")
  case None
  then show ?thesis using assms
    by (simp add: clock_inv_def tick_stopwatch_basic tick_stopwatch_fields tick_stopwatch_elapsed)
next
  case (Some start)
  then have "to_us start + stopwatch_elapsed s \<le> to_us now" "0 \<le> stopwatch_elapsed s"
    using assms by (simp_all add: clock_inv_def)
  then show ?thesis using assms Some
    by (simp add: clock_inv_def tick_stopwatch_basic tick_stopwatch_fields tick_stopwatch_elapsed
          dt_diff_def)
qed

lemma tick_timer_inv:
  assumes "tick_timer now s = Inr s'"
  shows "(basic_inv s \<longrightarrow> basic_inv s') \<and> (clock_inv t s \<longrightarrow> clock_inv t s')"
proof -
  from tick_timer_Inr [OF assms] obtain r
    where "s' = s\<lparr>timer_running := r\<rparr>" "r \<longrightarrow> timer_running s" by blast
  then show ?thesis by (auto simp: clock_inv_def basic_inv_def)
qed

lemma update_time_basic:
  assumes "basic_inv s" "update_time strftime now1 now2 now3 now4 s = Inr s'"
  shows "basic_inv s'"
proof -
  from update_time_Inr [OF assms(2)] obtain s3
    where s3: "tick_timer now3 (tick_stopwatch now2 (tick_time now1 s)) = Inr s3"
      and s': "update_display strftime now4 (tick_blink s3) = Inr s'"
    by blast
  have "basic_inv (tick_time now1 s)"
    using assms(1) basic_inv_cong [OF tick_time_watch] by blast
  then have "basic_inv (tick_stopwatch now2 (tick_time now1 s))"
    by (simp add: tick_stopwatch_basic)
  with tick_timer_inv [OF s3] have "basic_inv s3" by blast
  then have "basic_inv (tick_blink s3)"
    using basic_inv_cong [OF tick_blink_watch] by blast
  then show ?thesis using basic_inv_cong [OF update_display_watch [OF s']] by blast
qed

lemma update_display_clock:
  assumes "clock_inv t s" "valid_datetime now"
  shows "\<exists>s'. update_display strftime now s = Inr s' \<and> clock_inv t s'"
proof -
  have "\<exists>s'. update_display strftime now s = Inr s'"
    using assms by (intro update_display_total) (simp_all add: clock_inv_def basic_inv_def)
  then obtain s' where s': "update_display strftime now s = Inr s'" by blast
  then show ?thesis using assms(1) clock_inv_cong [OF update_display_watch [OF s']] by blast
qed

lemma update_time_clock:
  assumes "clock_inv t s" "monotone_from t [now1, now2, now3, now4]"
  shows "\<exists>s'. update_time strftime now1 now2 now3 now4 s = Inr s' \<and> clock_inv (to_us now4) s'"
proof -
  from assms(2) have v: "valid_datetime now3" "valid_datetime now4"
    and le: "t \<le> to_us now2" "to_us now2 \<le> to_us now4"
    by simp_all
  let ?s2 = "tick_stopwatch now2 (tick_time now1 s)"
  have "clock_inv t (tick_time now1 s)"
    using assms(1) clock_inv_cong [OF tick_time_watch] by blast
  then have s2: "clock_inv (to_us now2) ?s2" using le(1) by (rule tick_stopwatch_clock)
  then have "\<exists>s3. tick_timer now3 ?s2 = Inr s3"
    using v(1) by (intro tick_timer_total) (simp_all add: clock_inv_def basic_inv_def)
  then obtain s3 where s3: "tick_timer now3 ?s2 = Inr s3" by blast
  with s2 tick_timer_inv [OF s3] have "clock_inv (to_us now2) s3" by blast
  then have "clock_inv (to_us now2) (tick_blink s3)"
    using clock_inv_cong [OF tick_blink_watch] by blast
  from update_display_clock [OF this v(2)] obtain s'
    where "update_display strftime now4 (tick_blink s3) = Inr s'" "clock_inv (to_us now2) s'"
    by blast
  then show ?thesis using s3 le(2) by (auto simp: update_time_def intro: clock_inv_mono)
qed

lemma on_button_pressed_cases:
  "on_button_pressed button_id now s = cycle_mode s \<or>
   on_button_pressed button_id now s = Inr (handle_set s) \<or>
   on_button_pressed button_id now s = handle_prev s \<or>
   on_button_pressed button_id now s = handle_next s \<or>
   on_button_pressed button_id now s = handle_start_stop now s \<or>
   on_button_pressed button_id now s = Inr (handle_light s) \<or>
   on_button_pressed button_id now s = Inr s"
  by (simp add: on_button_pressed_def)

lemma cycle_mode_inv:
  "\<exists>s'. cycle_mode s = Inr s' \<and> basic_inv s' = basic_inv s \<and> clock_inv t s' = clock_inv t s"
proof -
  from cycle_mode_watch obtain s'
    where s': "cycle_mode s = Inr s'" "watch_fields s' = watch_fields s" by blast
  from s'(2) have "basic_inv s' = basic_inv s" "clock_inv t s' = clock_inv t s"
    by (rule basic_inv_cong, rule clock_inv_cong)
  with s'(1) show ?thesis by blast
qed

lemma handle_set_inv:
  "basic_inv (handle_set s) = basic_inv s" "clock_inv t (handle_set s) = clock_inv t s"
  using handle_set_watch by (rule basic_inv_cong, rule clock_inv_cong)

lemma on_button_pressed_basic:
  assumes "basic_inv s" "on_button_pressed button_id now s = Inr s'"
  shows "basic_inv s'"
proof -
  have c: "cycle_mode s = Inr s' \<Longrightarrow> basic_inv s'"
    using cycle_mode_inv [of s] assms(1) by auto
  have p: "handle_prev s = Inr s' \<Longrightarrow> basic_inv s'"
    using handle_prev_basic [OF assms(1)] by auto
  have n: "handle_next s = Inr s' \<Longrightarrow> basic_inv s'"
    using handle_next_basic [OF assms(1)] by auto
  have ss: "handle_start_stop now s = Inr s' \<Longrightarrow> basic_inv s'"
    using assms(1) by (rule handle_start_stop_basic)
  have st: "basic_inv (handle_set s)" using assms(1) by (simp add: handle_set_inv)
  have l: "basic_inv (handle_light s)" using assms(1) by (rule handle_light_basic)
  from on_button_pressed_cases [of button_id now s] assms(2)
  consider "cycle_mode s = Inr s'" | "s' = handle_set s" | "handle_prev s = Inr s'"
    | "handle_next s = Inr s'" | "handle_start_stop now s = Inr s'" | "s' = handle_light s"
    | "s' = s"
    by auto
  then show ?thesis using c p n ss st l assms(1) by cases simp_all
qed

lemma on_button_pressed_clock:
  assumes "clock_inv t s" "valid_datetime now" "t \<le> to_us now"
  shows "\<exists>s'. on_button_pressed button_id now s = Inr s' \<and> clock_inv (to_us now) s'"
proof -
  let ?P = "\<lambda>r. \<exists>s'. r = Inr s' \<and> clock_inv (to_us now) s'"
  have inv: "clock_inv (to_us now) s" using assms(1,3) by (rule clock_inv_mono)
  then have basic: "basic_inv s" by (simp add: clock_inv_def)
  have c: "?P (cycle_mode s)"
    using cycle_mode_inv [of s "to_us now"] inv by auto
  have p: "?P (handle_prev s)"
    using handle_prev_basic [OF basic] inv by auto
  have n: "?P (handle_next s)"
    using handle_next_basic [OF basic] inv by auto
  have ss: "?P (handle_start_stop now s)"
    using handle_start_stop_clock [OF assms] .
  have st: "?P (Inr (handle_set s))" using inv by (simp add: handle_set_inv)
  have l: "?P (Inr (handle_light s))" using inv by (simp add: handle_light_clock)
  have i: "?P (Inr s)" using inv by simp
  from on_button_pressed_cases [of button_id now s] c p n ss st l i
  show ?thesis by metis
qed

lemma step_basic:
  assumes "basic_inv s" "step strftime e s = Inr s'"
  shows "basic_inv s'"
proof (cases e)
  case (Mount now)
  with assms(2) have "update_display strftime now s = Inr s'" by (simp add: on_mount_def)
  from basic_inv_cong [OF update_display_watch [OF this]] assms(1) show ?thesis by simp
next
  case (Tick now1 now2 now3 now4)
  with assms show ?thesis by (auto intro: update_time_basic)
next
  case (Press button_id now)
  with assms show ?thesis by (auto intro: on_button_pressed_basic)
qed

lemma run_basic:
  "basic_inv s \<Longrightarrow> run strftime evs s = Inr s' \<Longrightarrow> basic_inv s'"
proof (induction evs arbitrary: s)
  case Nil
  then show ?case by simp
next
  case (Cons e evs)
  show ?case
  proof (cases "step strftime e s")
    case (Inl err)
    with Cons.prems(2) show ?thesis by simp
  next
    case (Inr s1)
    with Cons.prems(1) have "basic_inv s1" by (auto intro: step_basic)
    moreover from Inr Cons.prems(2) have "run strftime evs s1 = Inr s'" by simp
    ultimately show ?thesis by (rule Cons.IH)
  qed
qed

lemma init_basic: "basic_inv (init now1 now2)"
  by (simp add: basic_inv_def init_def minutes_1_99_default)

lemma init_clock: "clock_inv t (init now1 now2)"
  by (simp add: clock_inv_def init_basic) (simp add: init_def)

lemma monotone_from_append:
  "monotone_from t (xs @ ys) = (monotone_from t xs \<and> monotone_from (end_time t xs) ys)"
  by (induction xs arbitrary: t) auto

lemma step_clock:
  assumes "clock_inv t s" "monotone_from t (readings e)"
  shows "\<exists>s'. step strftime e s = Inr s' \<and> clock_inv (end_time t (readings e)) s'"
proof (cases e)
  case (Mount now)
  with assms(2) have v: "valid_datetime now" "t \<le> to_us now" by simp_all
  from update_display_clock [OF assms(1) v(1)] obtain s'
    where "update_display strftime now s = Inr s'" "clock_inv t s'" by blast
  with Mount v(2) show ?thesis by (auto simp: on_mount_def intro: clock_inv_mono)
next
  case (Tick now1 now2 now3 now4)
  with assms(2) have "monotone_from t [now1, now2, now3, now4]" by simp
  from update_time_clock [OF assms(1) this] Tick show ?thesis by simp
next
  case (Press button_id now)
  with assms(2) have v: "valid_datetime now" "t \<le> to_us now" by simp_all
  from on_button_pressed_clock [OF assms(1) v] Press show ?thesis by simp
qed

lemma run_clock:
  "clock_inv t s \<Longrightarrow> monotone_from t (concat (map readings evs))
     \<Longrightarrow> \<exists>s'. run strftime evs s = Inr s'"
proof (induction evs arbitrary: t s)
  case Nil
  then show ?case by simp
next
  case (Cons e evs)
  from Cons.prems(2) have m: "monotone_from t (readings e)"
    "monotone_from (end_time t (readings e)) (concat (map readings evs))"
    by (simp_all add: monotone_from_append)
  from step_clock [OF Cons.prems(1) m(1)] obtain s1
    where s1: "step strftime e s = Inr s1" "clock_inv (end_time t (readings e)) s1" by blast
  from Cons.IH [OF s1(2) m(2)] s1(1) show ?case by simp
qed

section \<open>The claims\<close>

text \<open>
  C1, as the specification states it: in each of the five setting sub-modes
  \<open>on_mode()\<close> leaves the mode and all other state unchanged. The code does otherwise:
  \<open>list.index\<close> raises ValueError for a mode outside the top-level list and the
  handler of that exception sets the mode to TIME. In SET_HOUR the state after the press
  differs from the state before.
\<close>

theorem cycle_mode_set_hour_not_noop:
  "mode (s0\<lparr>mode := SET_HOUR\<rparr>) \<in> set setting_modes \<and>
   cycle_mode (s0\<lparr>mode := SET_HOUR\<rparr>) \<noteq> Inr (s0\<lparr>mode := SET_HOUR\<rparr>) \<and>
   cycle_mode (s0\<lparr>mode := SET_HOUR\<rparr>) = Inr (s0\<lparr>mode := TIME\<rparr>)"
  by (simp add: cycle_mode_def index_of_modes setting_modes_def s0_def init_def)

text \<open>
  C1, amended: in each of the five setting sub-modes \<open>on_mode()\<close> completes without an
  exception, sets the mode to TIME and changes no other attribute.
\<close>

theorem cycle_mode_setting_resets:
  "mode s \<in> set setting_modes \<Longrightarrow> cycle_mode s = Inr (s\<lparr>mode := TIME\<rparr>)"
  by (auto simp: cycle_mode_def index_of_modes setting_modes_def)

theorem cycle_mode_setting_resets_witness:
  "mode (s0\<lparr>mode := SET_ALARM_MINUTE\<rparr>) \<in> set setting_modes \<and>
   cycle_mode (s0\<lparr>mode := SET_ALARM_MINUTE\<rparr>) = Inr (s0\<lparr>mode := TIME\<rparr>)"
  using cycle_mode_setting_resets [of "s0\<lparr>mode := SET_ALARM_MINUTE\<rparr>"]
  by (simp add: setting_modes_def)

text \<open>
  C2: from any state in mode TIME, four presses of SET with nothing in between lead
  back to mode TIME with \<open>current_time\<close> as it was before the first press.
\<close>

theorem handle_set_four_times:
  "mode s = TIME \<Longrightarrow>
     mode (handle_set (handle_set (handle_set (handle_set s)))) = TIME \<and>
     current_time (handle_set (handle_set (handle_set (handle_set s)))) = current_time s"
  by (simp add: handle_set_def)

theorem handle_set_four_times_witness:
  "mode s0 = TIME \<and>
   mode (handle_set (handle_set (handle_set (handle_set s0)))) = TIME \<and>
   current_time (handle_set (handle_set (handle_set (handle_set s0)))) = t0"
  using handle_set_four_times [of s0] by (simp add: s0_def init_def)

text \<open>
  C3: in each of the five setting sub-modes, with the edited field inside its range (as
  every field of a Python datetime is), \<open>on_prev()\<close> followed by \<open>on_next()\<close> and
  \<open>on_next()\<close> followed by \<open>on_prev()\<close> give back the state they started from, and a
  single press moves the edited field by one modulo 24 for hours and modulo 60 for
  minutes and seconds.
\<close>

theorem prev_next_inverse:
  assumes "mode s \<in> set setting_modes"
    and "0 \<le> edited_field s" and "edited_field s < field_range (mode s)"
  shows "bind_result (handle_prev s) handle_next = Inr s \<and>
         bind_result (handle_next s) handle_prev = Inr s \<and>
         (\<exists>s'. handle_prev s = Inr s' \<and>
                edited_field s' = (edited_field s - 1) mod field_range (mode s)) \<and>
         (\<exists>s'. handle_next s = Inr s' \<and>
                edited_field s' = (edited_field s + 1) mod field_range (mode s))"
proof -
  from assms(1) consider "mode s = SET_HOUR" | "mode s = SET_MINUTE" | "mode s = SET_SECOND"
    | "mode s = SET_ALARM_HOUR" | "mode s = SET_ALARM_MINUTE"
    by (auto simp: setting_modes_cases)
  then show ?thesis
  proof cases
    case 1
    with assms(2,3) have r: "0 \<le> hour (display_time s)" "hour (display_time s) < 24"
      by (simp_all add: edited_field_def field_range_def)
    show ?thesis using 1 mod_pm1 [OF r] r
      by (simp add: handle_prev_def handle_next_def replace_hour_def replace_minute_def
            replace_second_def edited_field_def field_range_def)
  next
    case 2
    with assms(2,3) have r: "0 \<le> minute (display_time s)" "minute (display_time s) < 60"
      by (simp_all add: edited_field_def field_range_def)
    show ?thesis using 2 mod_pm1 [OF r] r
      by (simp add: handle_prev_def handle_next_def replace_hour_def replace_minute_def
            replace_second_def edited_field_def field_range_def)
  next
    case 3
    with assms(2,3) have r: "0 \<le> second (display_time s)" "second (display_time s) < 60"
      by (simp_all add: edited_field_def field_range_def)
    show ?thesis using 3 mod_pm1 [OF r] r
      by (simp add: handle_prev_def handle_next_def replace_hour_def replace_minute_def
            replace_second_def edited_field_def field_range_def)
  next
    case 4
    with assms(2,3) have r: "0 \<le> hour (alarm_time s)" "hour (alarm_time s) < 24"
      by (simp_all add: edited_field_def field_range_def)
    show ?thesis using 4 mod_pm1 [OF r] r
      by (simp add: handle_prev_def handle_next_def replace_hour_def replace_minute_def
            replace_second_def edited_field_def field_range_def)
  next
    case 5
    with assms(2,3) have r: "0 \<le> minute (alarm_time s)" "minute (alarm_time s) < 60"
      by (simp_all add: edited_field_def field_range_def)
    show ?thesis using 5 mod_pm1 [OF r] r
      by (simp add: handle_prev_def handle_next_def replace_hour_def replace_minute_def
            replace_second_def edited_field_def field_range_def)
  qed
qed

theorem prev_next_inverse_witness:
  "mode s_edit_hour \<in> set setting_modes \<and>
   0 \<le> edited_field s_edit_hour \<and> edited_field s_edit_hour < field_range (mode s_edit_hour) \<and>
   edited_field s_edit_hour = 23 \<and>
   bind_result (handle_prev s_edit_hour) handle_next = Inr s_edit_hour \<and>
   bind_result (handle_next s_edit_hour) handle_prev = Inr s_edit_hour \<and>
   (\<exists>s'. handle_prev s_edit_hour = Inr s' \<and> edited_field s' = 22) \<and>
   (\<exists>s'. handle_next s_edit_hour = Inr s' \<and> edited_field s' = 0)"
  using prev_next_inverse [of s_edit_hour]
  by (simp add: setting_modes_def edited_field_def field_range_def s_edit_hour_def t_late_def)

text \<open>
  C7: \<open>render()\<close>, the method \<open>update_display\<close>, writes the four widgets and assigns
  none of the thirteen attributes of the clock state.
\<close>

theorem update_display_frame:
  assumes "update_display strftime now s = Inr s'"
  shows "current_time s' = current_time s \<and> display_time s' = display_time s \<and>
         alarm_time s' = alarm_time s \<and> alarm_enabled s' = alarm_enabled s \<and>
         mode s' = mode s \<and> stopwatch_start s' = stopwatch_start s \<and>
         stopwatch_elapsed s' = stopwatch_elapsed s \<and>
         stopwatch_running s' = stopwatch_running s \<and>
         timer_duration s' = timer_duration s \<and> timer_start s' = timer_start s \<and>
         timer_running s' = timer_running s \<and> blink_state s' = blink_state s \<and>
         setting_blink s' = setting_blink s"
  using update_display_Inr [OF assms] by auto

theorem update_display_frame_witness:
  "update_display (\<lambda>d. ''Wednesday, April 24, 2024'') t0 s0 = Inr s0_shown \<and>
   current_time s0_shown = current_time s0 \<and> display_time s0_shown = display_time s0 \<and>
   alarm_time s0_shown = alarm_time s0 \<and> alarm_enabled s0_shown = alarm_enabled s0 \<and>
   mode s0_shown = mode s0 \<and> stopwatch_start s0_shown = stopwatch_start s0 \<and>
   stopwatch_elapsed s0_shown = stopwatch_elapsed s0 \<and>
   stopwatch_running s0_shown = stopwatch_running s0 \<and>
   timer_duration s0_shown = timer_duration s0 \<and> timer_start s0_shown = timer_start s0 \<and>
   timer_running s0_shown = timer_running s0 \<and> blink_state s0_shown = blink_state s0 \<and>
   setting_blink s0_shown = setting_blink s0"
proof -
  have shown: "update_display (\<lambda>d. ''Wednesday, April 24, 2024'') t0 s0 = Inr s0_shown"
    by (simp add: update_display_def time_str_def clock_str_def date_str_def status_parts_def
          s0_shown_def s0_def init_def t0_def format_02d_def digits_of.simps digit_char_def)
  show ?thesis using shown update_display_frame [OF shown] by simp
qed

text \<open>
  C5: in mode TIMER, with a duration of 1 to 99 whole minutes, \<open>render()\<close> shows the
  remaining time as the five characters MM:SS of its whole seconds while the countdown
  runs and time remains, the literal 00:00 while it runs and none remains, and the
  duration as MM:SS while it does not run; the date is empty. The clock is read after
  the start of the countdown.
\<close>

theorem timer_display:
  assumes "mode s = TIMER" and "minutes_1_99 (timer_duration s)"
  shows "(timer_running s \<and> timer_start s = Some start \<and> valid_datetime start \<and>
          valid_datetime now \<and> to_us start \<le> to_us now \<longrightarrow>
            (\<exists>s'. update_display strftime now s = Inr s' \<and> date_display s' = '''' \<and>
                   time_display s' =
                     (if 0 < timer_duration s - dt_diff now start
                      then mmss ((timer_duration s - dt_diff now start) div us_per_second)
                      else ''00:00''))) \<and>
         (\<not> timer_running s \<longrightarrow>
            (\<exists>s'. update_display strftime now s = Inr s' \<and> date_display s' = '''' \<and>
                   time_display s' = mmss (timer_duration s div us_per_second)))"
proof (intro conjI impI)
  assume a: "timer_running s \<and> timer_start s = Some start \<and> valid_datetime start \<and>
             valid_datetime now \<and> to_us start \<le> to_us now"
  let ?r = "timer_duration s - dt_diff now start"
  have sub: "td_sub (timer_duration s) (dt_diff now start) = Inr ?r"
    using a assms(2) by (simp add: td_sub_dt_diff)
  have "?r \<le> timer_duration s" using a by (simp add: dt_diff_def)
  then have "?r < 100 * us_per_minute"
    using assms(2) by (simp add: minutes_1_99_def us_defs)
  then have "0 < ?r \<Longrightarrow> minutes_seconds_str ?r = mmss (?r div us_per_second)"
    by (simp add: minutes_seconds_str_mmss)
  then have "timer_str now s =
      Inr (if 0 < ?r then mmss (?r div us_per_second) else ''00:00'')"
    using a sub by (simp add: timer_str_running)
  from update_display_TIMER [OF assms(1) this]
  show "\<exists>s'. update_display strftime now s = Inr s' \<and> date_display s' = '''' \<and>
              time_display s' = (if 0 < ?r then mmss (?r div us_per_second) else ''00:00'')"
    by blast
next
  assume a: "\<not> timer_running s"
  have "0 \<le> timer_duration s" "timer_duration s < 100 * us_per_minute"
    using assms(2) by (simp_all add: minutes_1_99_def us_defs)
  then have "timer_str now s = Inr (mmss (timer_duration s div us_per_second))"
    using a by (simp add: timer_str_stopped minutes_seconds_str_mmss)
  from update_display_TIMER [OF assms(1) this]
  show "\<exists>s'. update_display strftime now s = Inr s' \<and> date_display s' = '''' \<and>
              time_display s' = mmss (timer_duration s div us_per_second)"
    by blast
qed

theorem timer_display_witness:
  "mode s_timer = TIMER \<and> minutes_1_99 (timer_duration s_timer) \<and>
   timer_running s_timer \<and> timer_start s_timer = Some t0 \<and>
   valid_datetime t0 \<and> valid_datetime t1 \<and> valid_datetime t2 \<and>
   to_us t0 \<le> to_us t1 \<and> to_us t0 \<le> to_us t2 \<and>
   (\<exists>s'. update_display (\<lambda>d. []) t1 s_timer = Inr s' \<and> date_display s' = '''' \<and>
          time_display s' = ''03:58'') \<and>
   (\<exists>s'. update_display (\<lambda>d. []) t2 s_timer = Inr s' \<and> date_display s' = '''' \<and>
          time_display s' = ''00:00'') \<and>
   mode s_timer_stopped = TIMER \<and> \<not> timer_running s_timer_stopped \<and>
   (\<exists>s'. update_display (\<lambda>d. []) t2 s_timer_stopped = Inr s' \<and> date_display s' = '''' \<and>
          time_display s' = ''05:00'')"
proof -
  have st: "mode s_timer = TIMER" "timer_duration s_timer = 300000000"
    "timer_running s_timer" "timer_start s_timer = Some t0"
    "mode s_timer_stopped = TIMER" "timer_duration s_timer_stopped = 300000000"
    "\<not> timer_running s_timer_stopped"
    by (simp_all add: s_timer_def s_timer_stopped_def s0_def init_def us_defs)
  have m: "minutes_1_99 300000000" by (simp add: minutes_1_99_def us_defs)
  have v: "valid_datetime t0" "valid_datetime t1" "valid_datetime t2"
    by (simp_all add: valid_datetime_def t0_def t1_def t2_def us_defs)
  have u: "to_us t0 = 63849634215000000" "to_us t1 = 63849634276500000"
    "to_us t2 = 63849634575000000"
    by (simp_all add: to_us_def t0_def t1_def t2_def us_defs)
  have f: "mmss 238 = ''03:58''" "mmss 300 = ''05:00''"
    by (simp_all add: mmss_def digit_char_def)
  show ?thesis
    using timer_display [where s = s_timer and start = t0 and now = t1 and strftime = "\<lambda>d. []"]
      timer_display [where s = s_timer and start = t0 and now = t2 and strftime = "\<lambda>d. []"]
      timer_display [where s = s_timer_stopped and start = t0 and now = t2
        and strftime = "\<lambda>d. []"]
    by (simp add: st m v u f dt_diff_def us_defs)
qed

text \<open>
  C6: a tick with the countdown running and \<open>timer_start\<close> set stops the countdown
  exactly when \<open>timer_duration - (now() - timer_start)\<close> is zero or negative, and
  changes neither \<open>timer_start\<close> nor \<open>timer_duration\<close>; with time remaining it changes
  none of the three timer attributes. The tick completes whenever the duration is 1 to
  99 minutes and the dates involved are valid.
\<close>

theorem tick_timer_expiry:
  assumes "timer_running s" and "timer_start s = Some start"
  shows "(minutes_1_99 (timer_duration s) \<and> valid_datetime start \<and> valid_datetime now3 \<and>
          valid_datetime now4 \<longrightarrow>
            (\<exists>s'. update_time strftime now1 now2 now3 now4 s = Inr s')) \<and>
         (\<forall>s'. update_time strftime now1 now2 now3 now4 s = Inr s' \<longrightarrow>
            timer_running s' = (0 < timer_duration s - dt_diff now3 start) \<and>
            timer_start s' = timer_start s \<and> timer_duration s' = timer_duration s)"
proof (intro conjI impI allI)
  assume "minutes_1_99 (timer_duration s) \<and> valid_datetime start \<and> valid_datetime now3 \<and>
          valid_datetime now4"
  then show "\<exists>s'. update_time strftime now1 now2 now3 now4 s = Inr s'"
    using assms(2) by (intro update_time_total) simp_all
next
  fix s'
  assume "update_time strftime now1 now2 now3 now4 s = Inr s'"
  from update_time_Inr [OF this] obtain s3
    where s3: "tick_timer now3 (tick_stopwatch now2 (tick_time now1 s)) = Inr s3"
      and s': "update_display strftime now4 (tick_blink s3) = Inr s'"
    by blast
  from tick_timer_Inr [OF s3] assms
  have t: "timer_running s3 = (0 < timer_duration s - dt_diff now3 start)"
    "timer_start s3 = timer_start s" "timer_duration s3 = timer_duration s"
    by (simp_all add: tick_stopwatch_fields tick_time_fields)
  from update_display_Inr [OF s']
  have "timer_running s' = timer_running s3" "timer_start s' = timer_start s3"
    "timer_duration s' = timer_duration s3"
    by (auto simp: tick_blink_fields)
  with t show "timer_running s' = (0 < timer_duration s - dt_diff now3 start)"
    and "timer_start s' = timer_start s" and "timer_duration s' = timer_duration s"
    by simp_all
qed

theorem tick_timer_expiry_witness:
  "timer_running s_timer \<and> timer_start s_timer = Some t0 \<and>
   minutes_1_99 (timer_duration s_timer) \<and>
   valid_datetime t0 \<and> valid_datetime t1 \<and> valid_datetime t2 \<and>
   (\<exists>s'. update_time (\<lambda>d. []) t2 t2 t2 t2 s_timer = Inr s' \<and> \<not> timer_running s' \<and>
          timer_start s' = Some t0 \<and> timer_duration s' = 300000000) \<and>
   (\<exists>s'. update_time (\<lambda>d. []) t1 t1 t1 t1 s_timer = Inr s' \<and> timer_running s' \<and>
          timer_start s' = Some t0 \<and> timer_duration s' = 300000000)"
proof -
  have st: "timer_running s_timer" "timer_start s_timer = Some t0"
    "timer_duration s_timer = 300000000"
    by (simp_all add: s_timer_def s0_def init_def us_defs)
  have m: "minutes_1_99 300000000" by (simp add: minutes_1_99_def us_defs)
  have v: "valid_datetime t0" "valid_datetime t1" "valid_datetime t2"
    by (simp_all add: valid_datetime_def t0_def t1_def t2_def us_defs)
  have u: "dt_diff t1 t0 = 61500000" "dt_diff t2 t0 = 360000000"
    by (simp_all add: dt_diff_def to_us_def t0_def t1_def t2_def us_defs)
  note late = tick_timer_expiry [where s = s_timer and start = t0 and strftime = "\<lambda>d. []"
      and ?now1.0 = t2 and ?now2.0 = t2 and ?now3.0 = t2 and ?now4.0 = t2, OF st(1,2)]
  note early = tick_timer_expiry [where s = s_timer and start = t0 and strftime = "\<lambda>d. []"
      and ?now1.0 = t1 and ?now2.0 = t1 and ?now3.0 = t1 and ?now4.0 = t1, OF st(1,2)]
  from late obtain s2 where s2: "update_time (\<lambda>d. []) t2 t2 t2 t2 s_timer = Inr s2"
    using st m v by auto
  with late have "\<not> timer_running s2 \<and> timer_start s2 = Some t0 \<and> timer_duration s2 = 300000000"
    using st u by simp
  with s2 have a: "\<exists>s'. update_time (\<lambda>d. []) t2 t2 t2 t2 s_timer = Inr s' \<and>
      \<not> timer_running s' \<and> timer_start s' = Some t0 \<and> timer_duration s' = 300000000"
    by blast
  from early obtain s1 where s1: "update_time (\<lambda>d. []) t1 t1 t1 t1 s_timer = Inr s1"
    using st m v by auto
  with early have "timer_running s1 \<and> timer_start s1 = Some t0 \<and> timer_duration s1 = 300000000"
    using st u by simp
  with s1 have b: "\<exists>s'. update_time (\<lambda>d. []) t1 t1 t1 t1 s_timer = Inr s' \<and>
      timer_running s' \<and> timer_start s' = Some t0 \<and> timer_duration s' = 300000000"
    by blast
  show ?thesis using st m v a b by simp
qed

text \<open>
  C8: with the stopwatch paused in mode STOPWATCH (started before, not running, elapsed
  time \<open>e > 0\<close>) and \<open>t - e\<close> a date of the calendar, START/STOP pressed at \<open>t\<close> sets
  \<open>stopwatch_start\<close> to \<open>t - e\<close>, sets \<open>stopwatch_running\<close> and keeps \<open>e\<close>; every later tick
  that reads the clock at \<open>t'\<close> computes the elapsed time \<open>e + (t' - t)\<close>, which leaves the
  pause out.
\<close>

theorem stopwatch_resume:
  assumes "mode s = STOPWATCH" and "\<not> stopwatch_running s"
    and "stopwatch_start s = Some start0" and "0 < stopwatch_elapsed s"
    and "valid_datetime t" and "us_per_day \<le> to_us t - stopwatch_elapsed s"
  shows "\<exists>s' start.
           handle_start_stop t s = Inr s' \<and>
           dt_sub_td t (stopwatch_elapsed s) = Inr start \<and>
           stopwatch_start s' = Some start \<and> stopwatch_running s' \<and>
           stopwatch_elapsed s' = stopwatch_elapsed s \<and>
           (\<forall>strftime now1 t' now3 now4 s''.
              update_time strftime now1 t' now3 now4 s' = Inr s'' \<longrightarrow>
                stopwatch_elapsed s'' = stopwatch_elapsed s + dt_diff t' t)"
proof -
  let ?e = "stopwatch_elapsed s"
  let ?start = "from_us (to_us t - ?e)"
  let ?s' = "s\<lparr>stopwatch_start := Some ?start, stopwatch_running := True\<rparr>"
  have "to_us t - ?e < (max_ordinal + 1) * us_per_day"
    using to_us_bounds(2) [OF assms(5)] assms(4) by simp
  then have sub: "dt_sub_td t ?e = Inr ?start"
    using assms(6) by (simp add: dt_sub_td_def)
  then have press: "handle_start_stop t s = Inr ?s'"
    using assms(1,2,3) by (simp add: handle_start_stop_def)
  have later: "stopwatch_elapsed s'' = ?e + dt_diff t' t"
    if "update_time strftime now1 t' now3 now4 ?s' = Inr s''"
    for strftime now1 t' now3 now4 s''
  proof -
    from update_time_Inr [OF that] obtain s3
      where s3: "tick_timer now3 (tick_stopwatch t' (tick_time now1 ?s')) = Inr s3"
        and s'': "update_display strftime now4 (tick_blink s3) = Inr s''"
      by blast
    have "stopwatch_elapsed (tick_stopwatch t' (tick_time now1 ?s')) = dt_diff t' ?start"
      by (simp add: tick_stopwatch_elapsed tick_time_fields)
    with tick_timer_Inr [OF s3] have "stopwatch_elapsed s3 = dt_diff t' ?start" by simp
    moreover from update_display_Inr [OF s'']
    have "stopwatch_elapsed s'' = stopwatch_elapsed s3" by (auto simp: tick_blink_fields)
    ultimately show ?thesis by (simp add: dt_diff_def to_us_from_us)
  qed
  show ?thesis
    using press sub later by (intro exI [of _ ?s'] exI [of _ ?start]) simp
qed

theorem stopwatch_resume_witness:
  "mode s_paused = STOPWATCH \<and> \<not> stopwatch_running s_paused \<and>
   stopwatch_start s_paused = Some t0 \<and> 0 < stopwatch_elapsed s_paused \<and>
   valid_datetime t1 \<and> us_per_day \<le> to_us t1 - stopwatch_elapsed s_paused \<and>
   (\<exists>s' start. handle_start_stop t1 s_paused = Inr s' \<and>
      stopwatch_start s' = Some start \<and> to_us start = to_us t1 - 2000000 \<and>
      stopwatch_running s' \<and> stopwatch_elapsed s' = 2000000 \<and>
      (\<exists>s''. update_time (\<lambda>d. []) t2 t2 t2 t2 s' = Inr s'' \<and>
             stopwatch_elapsed s'' = 300500000))"
proof -
  have st: "mode s_paused = STOPWATCH" "\<not> stopwatch_running s_paused"
    "stopwatch_start s_paused = Some t0" "stopwatch_elapsed s_paused = 2000000"
    "timer_duration s_paused = 300000000" "timer_start s_paused = None"
    by (simp_all add: s_paused_def s0_def init_def us_defs)
  have m: "minutes_1_99 300000000" by (simp add: minutes_1_99_def us_defs)
  have v: "valid_datetime t1" "valid_datetime t2"
    by (simp_all add: valid_datetime_def t1_def t2_def us_defs)
  have u: "to_us t1 = 63849634276500000" "to_us t2 = 63849634575000000"
    by (simp_all add: to_us_def t1_def t2_def us_defs)
  have h: "0 < stopwatch_elapsed s_paused" "us_per_day \<le> to_us t1 - stopwatch_elapsed s_paused"
    by (simp_all add: st u us_defs)
  from stopwatch_resume [OF st(1) st(2) st(3) h(1) v(1) h(2)] obtain s' start
    where press: "handle_start_stop t1 s_paused = Inr s'"
      and sub: "dt_sub_td t1 (stopwatch_elapsed s_paused) = Inr start"
      and s': "stopwatch_start s' = Some start" "stopwatch_running s'"
        "stopwatch_elapsed s' = stopwatch_elapsed s_paused"
      and later: "\<And>strftime now1 t' now3 now4 s''.
        update_time strftime now1 t' now3 now4 s' = Inr s'' \<Longrightarrow>
          stopwatch_elapsed s'' = stopwatch_elapsed s_paused + dt_diff t' t1"
    by blast
  from sub have "start = from_us (to_us t1 - 2000000)"
    by (simp add: dt_sub_td_def st u us_defs)
  then have start: "to_us start = to_us t1 - 2000000" by (simp add: to_us_from_us)
  from press sub have "s' = s_paused\<lparr>stopwatch_start := Some start, stopwatch_running := True\<rparr>"
    by (simp add: handle_start_stop_def st)
  then have "timer_duration s' = 300000000" "timer_start s' = None" by (simp_all add: st)
  then have "\<exists>s''. update_time (\<lambda>d. []) t2 t2 t2 t2 s' = Inr s''"
    using m v by (intro update_time_total) simp_all
  then obtain s'' where tick: "update_time (\<lambda>d. []) t2 t2 t2 t2 s' = Inr s''" by blast
  from later [OF tick] have "stopwatch_elapsed s'' = 300500000"
    by (simp add: st dt_diff_def u)
  with tick press s' start show ?thesis using st v h by auto
qed

text \<open>
  C4: \<open>timer_duration\<close> starts at five minutes and, in every state a run reaches, is a
  whole number of minutes from 1 to 99: there \<open>on_prev()\<close> in mode TIMER takes one minute
  off but never goes below one minute, \<open>on_next()\<close> adds one minute but never goes above
  99 minutes, and \<open>on_light()\<close> in mode TIMER with the countdown stopped sets it back to
  five minutes.
\<close>

theorem timer_duration_range:
  assumes "run strftime evs (init now1 now2) = Inr s"
  shows "timer_duration (init now1 now2) = 5 * us_per_minute \<and>
         minutes_1_99 (timer_duration s) \<and>
         (mode s = TIMER \<longrightarrow>
            handle_prev s =
              Inr (s\<lparr>timer_duration := max us_per_minute (timer_duration s - us_per_minute)\<rparr>) \<and>
            handle_next s =
              Inr (s\<lparr>timer_duration :=
                       min (99 * us_per_minute) (timer_duration s + us_per_minute)\<rparr>)) \<and>
         (mode s = TIMER \<and> \<not> timer_running s \<longrightarrow>
            handle_light s = s\<lparr>timer_duration := 5 * us_per_minute\<rparr>)"
proof -
  have "basic_inv s" using init_basic assms by (rule run_basic)
  then have m: "minutes_1_99 (timer_duration s)" by (simp add: basic_inv_def)
  show ?thesis
    using m handle_prev_TIMER [OF _ m] handle_next_TIMER [OF _ m]
    by (simp add: init_def handle_light_def)
qed

theorem timer_duration_range_witness:
  "run (\<lambda>d. []) evs_one_minute (init t0 t0) = Inr s_one_minute \<and>
   timer_duration (init t0 t0) = 300000000 \<and>
   minutes_1_99 (timer_duration s_one_minute) \<and> mode s_one_minute = TIMER \<and>
   \<not> timer_running s_one_minute \<and>
   handle_prev s_one_minute = Inr (s_one_minute\<lparr>timer_duration := 60000000\<rparr>) \<and>
   handle_next s_one_minute = Inr (s_one_minute\<lparr>timer_duration := 120000000\<rparr>) \<and>
   handle_light s_one_minute = s_one_minute\<lparr>timer_duration := 300000000\<rparr>"
proof -
  have r: "run (\<lambda>d. []) evs_one_minute (init t0 t0) = Inr s_one_minute"
    by (simp add: evs_one_minute_def s_one_minute_def s0_def init_def on_button_pressed_def
          cycle_mode_def index_of_modes modes_def handle_prev_def whole_minutes_def
          timedelta_minutes_def valid_timedelta_def us_defs)
  have st: "mode s_one_minute = TIMER" "\<not> timer_running s_one_minute"
    "timer_duration s_one_minute = 60000000"
    by (simp_all add: s_one_minute_def s0_def init_def)
  show ?thesis
    using r timer_duration_range [OF r] by (simp add: st us_defs)
qed

text \<open>
  C10: in every state a run reaches, a running stopwatch has \<open>stopwatch_start\<close> set and
  a running countdown has \<open>timer_start\<close> set; so a tick of a running stopwatch always
  recomputes the elapsed time and a tick of a running countdown always compares the
  remaining time.
\<close>

theorem running_implies_started:
  assumes "run strftime evs (init now1 now2) = Inr s"
  shows "(stopwatch_running s \<longrightarrow>
            (\<exists>start. stopwatch_start s = Some start \<and>
               tick_stopwatch now s = s\<lparr>stopwatch_elapsed := dt_diff now start\<rparr>)) \<and>
         (timer_running s \<longrightarrow>
            (\<exists>start. timer_start s = Some start \<and>
               tick_timer now s =
                 bind_result (td_sub (timer_duration s) (dt_diff now start)) (\<lambda>remaining.
                   if remaining \<le> 0 then Inr (s\<lparr>timer_running := False\<rparr>) else Inr s)))"
proof -
  have "basic_inv s" using init_basic assms by (rule run_basic)
  then show ?thesis
    by (auto simp: basic_inv_def tick_stopwatch_def tick_timer_def)
qed

theorem running_implies_started_witness:
  "run (\<lambda>d. []) evs_start_both (init t0 t0) = Inr s_both_running \<and>
   stopwatch_running s_both_running \<and> timer_running s_both_running \<and>
   stopwatch_start s_both_running = Some t0 \<and> timer_start s_both_running = Some t1 \<and>
   tick_stopwatch t2 s_both_running = s_both_running\<lparr>stopwatch_elapsed := 360000000\<rparr> \<and>
   tick_timer t2 s_both_running = Inr s_both_running"
proof -
  have r: "run (\<lambda>d. []) evs_start_both (init t0 t0) = Inr s_both_running"
    by (simp add: evs_start_both_def s_both_running_def s0_def init_def on_button_pressed_def
          cycle_mode_def index_of_modes modes_def handle_start_stop_def)
  have st: "stopwatch_running s_both_running" "timer_running s_both_running"
    "stopwatch_start s_both_running = Some t0" "timer_start s_both_running = Some t1"
    "timer_duration s_both_running = 300000000"
    by (simp_all add: s_both_running_def s0_def init_def us_defs)
  have u: "dt_diff t2 t0 = 360000000" "dt_diff t2 t1 = 298500000"
    by (simp_all add: dt_diff_def to_us_def t0_def t1_def t2_def us_defs)
  have sub: "td_sub 300000000 298500000 = Inr 1500000"
    by (simp add: td_sub_def valid_timedelta_def us_defs)
  show ?thesis
    using r running_implies_started [OF r, of t2] by (simp add: st u sub)
qed

text \<open>
  C9: with a clock whose readings are valid dates and never go back, every run of
  mounts, ticks and button presses (of any button id) from the initial state completes:
  no handler and no tick raises an exception in a state such a run reaches.
\<close>

theorem handlers_total:
  assumes "valid_datetime now1"
    and "monotone_from (to_us now1) (now2 # concat (map readings evs))"
  shows "\<exists>s. run strftime evs (init now1 now2) = Inr s"
proof -
  from assms(2) have "monotone_from (to_us now2) (concat (map readings evs))" by simp
  with init_clock show ?thesis by (rule run_clock)
qed

theorem handlers_total_witness:
  "valid_datetime t0 \<and> monotone_from (to_us t0) (t0 # concat (map readings evs_session)) \<and>
   (\<exists>s. run (\<lambda>d. []) evs_session (init t0 t0) = Inr s)"
proof -
  have v: "valid_datetime t0" "valid_datetime t1" "valid_datetime t2"
    by (simp_all add: valid_datetime_def t0_def t1_def t2_def us_defs)
  have u: "to_us t0 = 63849634215000000" "to_us t1 = 63849634276500000"
    "to_us t2 = 63849634575000000"
    by (simp_all add: to_us_def t0_def t1_def t2_def us_defs)
  have m: "monotone_from (to_us t0) (t0 # concat (map readings evs_session))"
    by (simp add: evs_session_def v u)
  show ?thesis
    using v(1) m handlers_total [OF v(1) m] by simp
qed

end
